theory Spec2Isabelle
  imports Complex_Main "HOL-Library.Word"
begin

section \<open>JavaScript strings\<close>

text \<open>
  A JavaScript string is a sequence of UTF-16 code units.  The page text that the
  content script reads contains the rupee sign (U+20B9) and the badge text contains
  the check mark (U+2713), so strings are lists of 16-bit words; \<open>ascii\<close> embeds an
  ASCII literal.
\<close>

type_synonym ustring = "16 word list"

definition ascii :: "string \<Rightarrow> ustring" where
  "ascii s = map of_char s"

primrec isPrefixOf :: "'a list \<Rightarrow> 'a list \<Rightarrow> bool" where
  "isPrefixOf [] ys = True"
| "isPrefixOf (x # xs) ys = (case ys of [] \<Rightarrow> False | y # ys' \<Rightarrow> x = y \<and> isPrefixOf xs ys')"

text \<open>\<open>s.includes(p)\<close>: \<open>p\<close> occurs in \<open>s\<close> as a contiguous substring.\<close>

primrec str_includes :: "'a list \<Rightarrow> 'a list \<Rightarrow> bool" where
  "str_includes [] p = (p = [])"
| "str_includes (c # cs) p = (isPrefixOf p (c # cs) \<or> str_includes cs p)"

text \<open>Template-literal conversion of a non-negative integer (\<open>${response.status}\<close>).\<close>

fun showNat :: "nat \<Rightarrow> ustring" where
  "showNat n = (if n < 10 then [of_nat (48 + n)]
                else showNat (n div 10) @ [of_nat (48 + n mod 10)])"

section \<open>JavaScript numbers\<close>

text \<open>
  A Number is NaN, an infinity, or a finite double, kept here by its exact rational
  value (the sign of zero is not observable in any comparison the program makes).
\<close>

datatype js_number = NaN | PosInfinity | NegInfinity | Num rat

subsection \<open>White space, trimming and \<open>parseFloat\<close>\<close>

text \<open>
  White space and line terminators of ECMAScript: the characters \<open>String.prototype.trim\<close>
  removes, the class \<open>\s\<close> of a regular expression, and what \<open>parseFloat\<close> skips.
\<close>

definition isWhiteSpace :: "16 word \<Rightarrow> bool" where
  "isWhiteSpace c \<longleftrightarrow>
     c = 0x9 \<or> c = 0xA \<or> c = 0xB \<or> c = 0xC \<or> c = 0xD \<or> c = 0x20 \<or> c = 0xA0
   \<or> c = 0x1680 \<or> (0x2000 \<le> c \<and> c \<le> 0x200A) \<or> c = 0x2028 \<or> c = 0x2029
   \<or> c = 0x202F \<or> c = 0x205F \<or> c = 0x3000 \<or> c = 0xFEFF"

definition trim :: "ustring \<Rightarrow> ustring" where
  "trim s = rev (dropWhile isWhiteSpace (rev (dropWhile isWhiteSpace s)))"

definition isDigit :: "16 word \<Rightarrow> bool" where
  "isDigit c \<longleftrightarrow> 0x30 \<le> c \<and> c \<le> 0x39"

definition digitsValue :: "ustring \<Rightarrow> nat" where
  "digitsValue ds = foldl (\<lambda>acc c. 10 * acc + (unat c - 48)) 0 ds"

text \<open>
  \<open>parseFloat\<close> skips leading white space, takes the longest prefix that is a decimal
  literal (an optional sign, then \<open>Infinity\<close> or digits with an optional fraction and
  an optional well-formed exponent), and returns the double nearest to its value, ties
  to even; NaN when there is no such prefix.  \<open>toDouble neg n d\<close> rounds the fraction
  \<open>n / d\<close>: 53 significant bits, exponents down to that of the smallest subnormal,
  overflow to an infinity.
\<close>

fun bitLength :: "nat \<Rightarrow> nat" where
  "bitLength n = (if n = 0 then 0 else Suc (bitLength (n div 2)))"

definition floorLog2 :: "nat \<Rightarrow> nat \<Rightarrow> int" where
  "floorLog2 n d =
     (let k = int (bitLength n) - int (bitLength d)
      in if (if 0 \<le> k then d * 2 ^ nat k \<le> n else d \<le> n * 2 ^ nat (- k)) then k else k - 1)"

definition roundHalfEven :: "nat \<Rightarrow> nat \<Rightarrow> nat" where
  "roundHalfEven n d =
     (let q = n div d; r = n mod d
      in if 2 * r < d then q else if d < 2 * r then q + 1 else if even q then q else q + 1)"

definition toDouble :: "bool \<Rightarrow> nat \<Rightarrow> nat \<Rightarrow> js_number" where
  "toDouble neg n d =
     (if n = 0 then Num 0
      else
        let e = max (floorLog2 n d - 52) (- 1074);
            m = (if 0 \<le> e then roundHalfEven n (d * 2 ^ nat e)
                 else roundHalfEven (n * 2 ^ nat (- e)) d);
            v = (if 0 \<le> e then of_nat m * 2 ^ nat e else of_nat m / 2 ^ nat (- e)) :: rat
        in if 2 ^ 1024 \<le> v then (if neg then NegInfinity else PosInfinity)
           else Num (if neg then - v else v))"

definition exponentPart :: "ustring \<Rightarrow> int" where
  "exponentPart s =
     (case s of
        [] \<Rightarrow> 0
      | c # r \<Rightarrow>
          if c = 0x65 \<or> c = 0x45 then
            (case r of
               [] \<Rightarrow> 0
             | d # r' \<Rightarrow>
                 if d = 0x2B then int (digitsValue (takeWhile isDigit r'))
                 else if d = 0x2D then - int (digitsValue (takeWhile isDigit r'))
                 else int (digitsValue (takeWhile isDigit r)))
          else 0)"

definition parseFloat :: "ustring \<Rightarrow> js_number" where
  "parseFloat s =
     (let t = dropWhile isWhiteSpace s;
          neg = (t \<noteq> [] \<and> hd t = 0x2D);
          u = (if t \<noteq> [] \<and> (hd t = 0x2D \<or> hd t = 0x2B) then tl t else t)
      in if isPrefixOf (ascii ''Infinity'') u then (if neg then NegInfinity else PosInfinity)
         else
           let intDigits = takeWhile isDigit u;
               r1 = dropWhile isDigit u;
               hasDot = (r1 \<noteq> [] \<and> hd r1 = 0x2E);
               fracDigits = (if hasDot then takeWhile isDigit (tl r1) else []);
               r2 = (if hasDot then dropWhile isDigit (tl r1) else r1)
           in if intDigits = [] \<and> fracDigits = [] then NaN
              else
                let e10 = exponentPart r2 - int (length fracDigits);
                    m = digitsValue (intDigits @ fracDigits)
                in if 0 \<le> e10 then toDouble neg (m * 10 ^ nat e10) 1
                   else toDouble neg m (10 ^ nat (- e10)))"


section \<open>content.js: platform detection\<close>

record selectors =
  sel_container :: ustring
  sel_title :: ustring
  sel_price :: ustring

record platform =
  p_name :: ustring
  p_id :: ustring
  p_color :: ustring
  p_selectors :: selectors

definition amazonPlatform :: platform where
  "amazonPlatform =
     \<lparr> p_name = ascii ''Amazon'', p_id = ascii ''amazon'', p_color = ascii ''#ff9900'',
       p_selectors =
         \<lparr> sel_container = ascii ''[data-name='Active Items'] [data-item-index], .sc-list-item-content, #sc-active-cart .sc-list-item'',
           sel_title = ascii ''[data-cy='item-title'] span, .sc-product-title span, .sc-product-title a'',
           sel_price = ascii ''.sc-product-price .a-offscreen, .sc-product-price .sc-price, .a-price .a-offscreen'' \<rparr> \<rparr>"

definition flipkartPlatform :: platform where
  "flipkartPlatform =
     \<lparr> p_name = ascii ''Flipkart'', p_id = ascii ''flipkart'', p_color = ascii ''#2874f0'',
       p_selectors =
         \<lparr> sel_container = ascii ''._1fragrcH, .sBxzFz'',
           sel_title = ascii ''._2-4G_o a, .sBxzFz a, ._3I9Jbp'',
           sel_price = ascii ''._30jeq3._16Jk6d, ._30jeq3._1_bKsh, .WMgn0j'' \<rparr> \<rparr>"

definition bigbasketPlatform :: platform where
  "bigbasketPlatform =
     \<lparr> p_name = ascii ''BigBasket'', p_id = ascii ''bigbasket'', p_color = ascii ''#84c225'',
       p_selectors =
         \<lparr> sel_container = ascii ''.CartItemCard___StyledDiv-sc-1hz2rfp-0, .basket-item'',
           sel_title = ascii ''.CartItemCard___StyledDiv2-sc-1hz2rfp-1 a, .product-name a'',
           sel_price = ascii ''.CartItemCard___StyledDiv8-sc-1hz2rfp-7, .discnt-price'' \<rparr> \<rparr>"

definition swiggyPlatform :: platform where
  "swiggyPlatform =
     \<lparr> p_name = ascii ''Swiggy Instamart'', p_id = ascii ''swiggy'', p_color = ascii ''#fc8019'',
       p_selectors =
         \<lparr> sel_container = ascii ''.CartItem, [class*='CartItem']'',
           sel_title = ascii ''.CartItem h4, [class*='CartItem'] h4, [class*='Name']'',
           sel_price = ascii ''.CartItem [class*='Price'], [class*='CartItem'] [class*='Price']'' \<rparr> \<rparr>"

definition walmartPlatform :: platform where
  "walmartPlatform =
     \<lparr> p_name = ascii ''Walmart'', p_id = ascii ''walmart'', p_color = ascii ''#0071ce'',
       p_selectors =
         \<lparr> sel_container = ascii ''[data-automation-id='cart-line-item'], .cart-item'',
           sel_title = ascii ''[data-automation-id='product-title'] a, .product-title-link'',
           sel_price = ascii ''[itemprop='price'], .price-current'' \<rparr> \<rparr>"

definition targetPlatform :: platform where
  "targetPlatform =
     \<lparr> p_name = ascii ''Target'', p_id = ascii ''target'', p_color = ascii ''#cc0000'',
       p_selectors =
         \<lparr> sel_container = ascii ''[data-test='cartItem'], .cart-item'',
           sel_title = ascii ''[data-test='product-title'] a, .product-title'',
           sel_price = ascii ''[data-test='product-price'], .price'' \<rparr> \<rparr>"

text \<open>
  \<open>detectPlatform\<close>, called once by \<open>init\<close> on a fresh object: the value it leaves in
  \<open>this.currentPlatform\<close> (\<open>None\<close> for the initial \<open>null\<close>).  \<open>url\<close> is
  \<open>window.location.href\<close> and \<open>hostname\<close> is \<open>window.location.hostname\<close>.
\<close>

definition detectPlatform :: "ustring \<Rightarrow> ustring \<Rightarrow> platform option" where
  "detectPlatform url hostname =
     (if str_includes hostname (ascii ''amazon'') then
        (if str_includes url (ascii ''/gp/cart'') \<or> str_includes url (ascii ''/cart'')
         then Some amazonPlatform else None)
      else if str_includes hostname (ascii ''flipkart'') then
        (if str_includes url (ascii ''/viewcart'') \<or> str_includes url (ascii ''/cart'')
         then Some flipkartPlatform else None)
      else if str_includes hostname (ascii ''bigbasket'') then
        (if str_includes url (ascii ''/basket'') \<or> str_includes url (ascii ''/cart'')
         then Some bigbasketPlatform else None)
      else if str_includes hostname (ascii ''swiggy'') then
        (if str_includes url (ascii ''/instamart'') \<and> str_includes url (ascii ''/cart'')
         then Some swiggyPlatform else None)
      else if str_includes hostname (ascii ''walmart'') then
        (if str_includes url (ascii ''/cart'') then Some walmartPlatform else None)
      else if str_includes hostname (ascii ''target'') then
        (if str_includes url (ascii ''/cart'') then Some targetPlatform else None)
      else None)"

subsection \<open>The adapter registry of the specification\<close>

text \<open>
  The specification describes \<open>detectPlatform\<close> as a registry: a list of adapters in
  registration order, each with a match rule that joins a hostname test and a url
  test, and \<open>identify\<close> returning the first adapter whose rule matches.  The catalog
  below carries the tokens of the branches of \<open>detectPlatform\<close>; \<open>identify\<close> follows the
  words of the specification, to be compared with the function of the source.
\<close>

record adapter =
  hostToken :: ustring
  urlRule :: "ustring \<Rightarrow> bool"
  adapterPlatform :: platform

definition adapterCatalog :: "adapter list" where
  "adapterCatalog =
     [\<lparr> hostToken = ascii ''amazon'',
        urlRule = (\<lambda>url. str_includes url (ascii ''/gp/cart'') \<or> str_includes url (ascii ''/cart'')),
        adapterPlatform = amazonPlatform \<rparr>,
      \<lparr> hostToken = ascii ''flipkart'',
        urlRule = (\<lambda>url. str_includes url (ascii ''/viewcart'') \<or> str_includes url (ascii ''/cart'')),
        adapterPlatform = flipkartPlatform \<rparr>,
      \<lparr> hostToken = ascii ''bigbasket'',
        urlRule = (\<lambda>url. str_includes url (ascii ''/basket'') \<or> str_includes url (ascii ''/cart'')),
        adapterPlatform = bigbasketPlatform \<rparr>,
      \<lparr> hostToken = ascii ''swiggy'',
        urlRule = (\<lambda>url. str_includes url (ascii ''/instamart'') \<and> str_includes url (ascii ''/cart'')),
        adapterPlatform = swiggyPlatform \<rparr>,
      \<lparr> hostToken = ascii ''walmart'',
        urlRule = (\<lambda>url. str_includes url (ascii ''/cart'')),
        adapterPlatform = walmartPlatform \<rparr>,
      \<lparr> hostToken = ascii ''target'',
        urlRule = (\<lambda>url. str_includes url (ascii ''/cart'')),
        adapterPlatform = targetPlatform \<rparr>]"

definition matchRule :: "adapter \<Rightarrow> ustring \<Rightarrow> ustring \<Rightarrow> bool" where
  "matchRule a url hostname \<longleftrightarrow> str_includes hostname (hostToken a) \<and> urlRule a url"

definition identify :: "ustring \<Rightarrow> ustring \<Rightarrow> platform option" where
  "identify url hostname =
     map_option adapterPlatform (find (\<lambda>a. matchRule a url hostname) adapterCatalog)"

text \<open>
  What the chain of \<open>else if\<close> does on a catalog: the first adapter whose hostname
  token occurs in the hostname decides, by its url test alone.
\<close>

definition firstHostMatch :: "adapter list \<Rightarrow> ustring \<Rightarrow> ustring \<Rightarrow> platform option" where
  "firstHostMatch catalog url hostname =
     (case find (\<lambda>a. str_includes hostname (hostToken a)) catalog of
        None \<Rightarrow> None
      | Some a \<Rightarrow> if urlRule a url then Some (adapterPlatform a) else None)"

text \<open>The number of retailer tokens of the catalog that occur in a hostname.\<close>

definition hostTokenHits :: "ustring \<Rightarrow> nat" where
  "hostTokenHits hostname =
     length (filter (\<lambda>a. str_includes hostname (hostToken a)) adapterCatalog)"

section \<open>content.js: extraction\<close>

record cart_item =
  productTitle :: ustring
  price :: js_number
  quantity :: nat
  currency :: ustring

definition detectCurrency :: "ustring \<Rightarrow> ustring" where
  "detectCurrency hostname =
     (if str_includes hostname (ascii ''.in'') then ascii ''INR'' else ascii ''USD'')"

text \<open>\<open>s.endsWith(p)\<close>, used to say that a hostname lies in a top-level domain.\<close>

definition endsWith :: "'a list \<Rightarrow> 'a list \<Rightarrow> bool" where
  "endsWith s p = isPrefixOf (rev p) (rev s)"

text \<open>
  One element of \<open>document.querySelectorAll(selectors.container)\<close>, in document order,
  seen through the two queries the loop makes on it: the text content of the first
  descendant matching the title selector and of the first matching the price selector,
  \<open>None\<close> when \<open>querySelector\<close> returns \<open>null\<close>.
\<close>

record row =
  titleElement :: "ustring option"
  priceElement :: "ustring option"

text \<open>\<open>priceText.replace(/[\<dots>$,\s]/g, "")\<close> with the rupee sign U+20B9 first in the class.\<close>

definition stripPriceText :: "ustring \<Rightarrow> ustring" where
  "stripPriceText s =
     filter (\<lambda>c. \<not> (c = 0x20B9 \<or> c = 0x24 \<or> c = 0x2C \<or> isWhiteSpace c)) s"

definition isNaN :: "js_number \<Rightarrow> bool" where
  "isNaN x \<longleftrightarrow> x = NaN"

text \<open>The comparison \<open>x > 0\<close> of JavaScript.\<close>

definition greaterThanZero :: "js_number \<Rightarrow> bool" where
  "greaterThanZero x = (case x of NaN \<Rightarrow> False | PosInfinity \<Rightarrow> True
                        | NegInfinity \<Rightarrow> False | Num q \<Rightarrow> 0 < q)"

definition isFinite :: "js_number \<Rightarrow> bool" where
  "isFinite x = (case x of Num q \<Rightarrow> True | _ \<Rightarrow> False)"

text \<open>The body of the \<open>forEach\<close> callback: \<open>items\<close> before the row, \<open>items\<close> after it.\<close>

definition scrapeRow :: "ustring \<Rightarrow> cart_item list \<Rightarrow> row \<Rightarrow> cart_item list" where
  "scrapeRow hostname items container =
     (case titleElement container of
        None \<Rightarrow> items
      | Some titleText \<Rightarrow>
          (case priceElement container of
             None \<Rightarrow> items
           | Some priceContent \<Rightarrow>
               let productTitle = trim titleText;
                   priceText = trim (stripPriceText priceContent);
                   price = parseFloat priceText
               in if productTitle \<noteq> [] \<and> \<not> isNaN price \<and> greaterThanZero price
                  then items @ [\<lparr> productTitle = productTitle, price = price, quantity = 1,
                                  currency = detectCurrency hostname \<rparr>]
                  else items))"

definition scrapeCartItems :: "platform option \<Rightarrow> ustring \<Rightarrow> row list \<Rightarrow> cart_item list" where
  "scrapeCartItems currentPlatform hostname containers =
     (case currentPlatform of
        None \<Rightarrow> []
      | Some p \<Rightarrow> foldl (scrapeRow hostname) [] containers)"

subsection \<open>The extraction contract\<close>

text \<open>
  A row is kept when both elements are present, the trimmed title is not empty, and
  the normalized price text parses to a number greater than zero; \<open>keptItem\<close> is the
  item made from it.  \<open>wellFormedFinite\<close> asks in addition, as the specification does,
  that the parsed value be finite.
\<close>

definition titleOf :: "row \<Rightarrow> ustring" where
  "titleOf r = (case titleElement r of None \<Rightarrow> [] | Some t \<Rightarrow> trim t)"

definition priceOf :: "row \<Rightarrow> js_number" where
  "priceOf r =
     (case priceElement r of None \<Rightarrow> NaN | Some t \<Rightarrow> parseFloat (trim (stripPriceText t)))"

definition wellFormed :: "row \<Rightarrow> bool" where
  "wellFormed r \<longleftrightarrow>
     titleElement r \<noteq> None \<and> priceElement r \<noteq> None
   \<and> titleOf r \<noteq> [] \<and> \<not> isNaN (priceOf r) \<and> greaterThanZero (priceOf r)"

definition wellFormedFinite :: "row \<Rightarrow> bool" where
  "wellFormedFinite r \<longleftrightarrow> wellFormed r \<and> isFinite (priceOf r)"

definition keptItem :: "ustring \<Rightarrow> row \<Rightarrow> cart_item" where
  "keptItem hostname r =
     \<lparr> productTitle = titleOf r, price = priceOf r, quantity = 1,
       currency = detectCurrency hostname \<rparr>"

section \<open>content.js: injection of the trigger control\<close>

text \<open>
  The page as a tree of elements: tag name (lower case, as in an HTML document),
  attributes in source order, children in document order.  A node is addressed by
  its path of child indices from the document element.
\<close>

datatype element =
  Element (tagName: ustring) (attributes: "(ustring \<times> ustring) list") (childNodes: "element list")

text \<open>The document: its document element, if it has one.\<close>

type_synonym document = "element option"

definition getAttribute :: "element \<Rightarrow> ustring \<Rightarrow> ustring option" where
  "getAttribute e a = map_of (attributes e) a"

definition isAsciiSpace :: "16 word \<Rightarrow> bool" where
  "isAsciiSpace c \<longleftrightarrow> c = 0x9 \<or> c = 0xA \<or> c = 0xC \<or> c = 0xD \<or> c = 0x20"

text \<open>The tokens of a \<open>class\<close> attribute; \<open>cur\<close> is the token being read.\<close>

primrec splitTokens :: "ustring \<Rightarrow> ustring \<Rightarrow> ustring list" where
  "splitTokens cur [] = (if cur = [] then [] else [cur])"
| "splitTokens cur (c # cs) =
     (if isAsciiSpace c then (if cur = [] then splitTokens [] cs else cur # splitTokens [] cs)
      else splitTokens (cur @ [c]) cs)"

text \<open>
  The selectors \<open>tryInjectButton\<close> uses: \<open>tag[attr*='v']\<close>, \<open>.class\<close>, \<open>#id\<close> and
  \<open>[attr*='v']\<close>.
\<close>

datatype selector =
    TagAttrContains ustring ustring ustring
  | ClassSelector ustring
  | IdSelector ustring
  | AttrContains ustring ustring

definition attrContains :: "element \<Rightarrow> ustring \<Rightarrow> ustring \<Rightarrow> bool" where
  "attrContains e a v = (case getAttribute e a of None \<Rightarrow> False | Some x \<Rightarrow> str_includes x v)"

fun matchesSelector :: "selector \<Rightarrow> element \<Rightarrow> bool" where
  "matchesSelector (TagAttrContains t a v) e = (tagName e = t \<and> attrContains e a v)"
| "matchesSelector (ClassSelector c) e =
     (case getAttribute e (ascii ''class'') of
        None \<Rightarrow> False
      | Some x \<Rightarrow> c \<in> set (splitTokens [] x))"
| "matchesSelector (IdSelector i) e = (getAttribute e (ascii ''id'') = Some i)"
| "matchesSelector (AttrContains a v) e = attrContains e a v"

text \<open>The first element in document order (pre-order) that satisfies \<open>P\<close>, by its path.\<close>

fun locate :: "(element \<Rightarrow> bool) \<Rightarrow> element \<Rightarrow> nat list option"
  and locateIn :: "(element \<Rightarrow> bool) \<Rightarrow> element list \<Rightarrow> nat \<Rightarrow> nat list option" where
  "locate P (Element t as ks) =
     (if P (Element t as ks) then Some [] else locateIn P ks 0)"
| "locateIn P [] i = None"
| "locateIn P (k # ks) i =
     (case locate P k of Some p \<Rightarrow> Some (i # p) | None \<Rightarrow> locateIn P ks (Suc i))"

definition querySelector :: "document \<Rightarrow> selector \<Rightarrow> nat list option" where
  "querySelector doc sel =
     (case doc of None \<Rightarrow> None | Some html \<Rightarrow> locate (matchesSelector sel) html)"

primrec firstChild :: "(element \<Rightarrow> bool) \<Rightarrow> element list \<Rightarrow> nat \<Rightarrow> nat option" where
  "firstChild P [] i = None"
| "firstChild P (k # ks) i = (if P k then Some i else firstChild P ks (Suc i))"

text \<open>
  \<open>document.body\<close>: the first child of the \<open>html\<close> element that is a \<open>body\<close> or a
  \<open>frameset\<close> element, \<open>null\<close> when there is none.
\<close>

definition body :: "document \<Rightarrow> nat list option" where
  "body doc =
     (case doc of
        None \<Rightarrow> None
      | Some html \<Rightarrow>
          if tagName html = ascii ''html''
          then map_option (\<lambda>i. [i])
                 (firstChild (\<lambda>k. tagName k = ascii ''body'' \<or> tagName k = ascii ''frameset'')
                    (childNodes html) 0)
          else None)"

text \<open>\<open>target.appendChild(b)\<close> for the node at a path; a path to no node changes nothing.\<close>

primrec appendChildAt :: "nat list \<Rightarrow> element \<Rightarrow> element \<Rightarrow> element" where
  "appendChildAt [] b e = Element (tagName e) (attributes e) (childNodes e @ [b])"
| "appendChildAt (i # p) b e =
     (if i < length (childNodes e)
      then Element (tagName e) (attributes e)
             ((childNodes e)[i := appendChildAt p b (childNodes e ! i)])
      else e)"

primrec validPath :: "nat list \<Rightarrow> element \<Rightarrow> bool" where
  "validPath [] e = True"
| "validPath (i # p) e = (i < length (childNodes e) \<and> validPath p (childNodes e ! i))"

fun countMatches :: "(element \<Rightarrow> bool) \<Rightarrow> element \<Rightarrow> nat" where
  "countMatches P (Element t as ks) =
     (if P (Element t as ks) then 1 else 0) + sum_list (map (countMatches P) ks)"

text \<open>The marker of the trigger control and the number of trigger controls in the page.\<close>

definition marker :: selector where
  "marker = ClassSelector (ascii ''cartgenie-analyze-btn'')"

definition triggerCount :: "document \<Rightarrow> nat" where
  "triggerCount doc =
     (case doc of None \<Rightarrow> 0 | Some html \<Rightarrow> countMatches (matchesSelector marker) html)"

text \<open>
  \<open>createAnalyzeButton\<close>: a \<open>button\<close> with the marker class, the style properties it
  assigns (the platform colour among them) and the \<open>span\<close> of its \<open>innerHTML\<close>.
\<close>

definition createAnalyzeButton :: "platform \<Rightarrow> element" where
  "createAnalyzeButton p =
     Element (ascii ''button'')
       [(ascii ''class'', ascii ''cartgenie-analyze-btn''),
        (ascii ''style'',
           ascii ''position: fixed; bottom: 20px; right: 20px; z-index: 9999; padding: 15px 25px; background-color: ''
           @ p_color p
           @ ascii ''; color: white; border: none; border-radius: 8px; cursor: pointer; font-size: 16px; font-weight: bold; box-shadow: 0 4px 15px rgba(0,0,0,0.3); transition: all 0.3s ease;'')]
       [Element (ascii ''span'') [(ascii ''style'', ascii ''margin-right: 8px;'')] []]"

definition targets :: "selector list" where
  "targets =
     [TagAttrContains (ascii ''form'') (ascii ''action'') (ascii ''cart''),
      ClassSelector (ascii ''cart-container''),
      ClassSelector (ascii ''cart-content''),
      IdSelector (ascii ''cart''),
      AttrContains (ascii ''id'') (ascii ''cart''),
      AttrContains (ascii ''class'') (ascii ''cart'')]"

text \<open>The \<open>for\<close> loop over \<open>targets\<close>: the first selector that finds an element.\<close>

primrec firstTarget :: "document \<Rightarrow> selector list \<Rightarrow> nat list option" where
  "firstTarget doc [] = None"
| "firstTarget doc (sel # sels) =
     (case querySelector doc sel of Some p \<Rightarrow> Some p | None \<Rightarrow> firstTarget doc sels)"

text \<open>
  \<open>tryInjectButton\<close>: the value it returns and the page it leaves.  Reading
  \<open>this.currentPlatform.color\<close> of \<open>null\<close> and calling \<open>appendChild\<close> on \<open>null\<close> throw
  inside the \<open>try\<close> block; the \<open>catch\<close> block returns \<open>false\<close>.
\<close>

definition tryInjectButton :: "platform option \<Rightarrow> document \<Rightarrow> bool \<times> document" where
  "tryInjectButton currentPlatform doc =
     (if querySelector doc marker \<noteq> None then (True, doc)
      else
        let targetElement =
              (case firstTarget doc targets of Some p \<Rightarrow> Some p | None \<Rightarrow> body doc)
        in case currentPlatform of
             None \<Rightarrow> (False, doc)
           | Some p \<Rightarrow>
               (case targetElement of
                  None \<Rightarrow> (False, doc)
                | Some path \<Rightarrow>
                    (True, map_option (appendChildAt path (createAnalyzeButton p)) doc)))"

text \<open>
  The fields of \<open>CartGenieContent\<close> that the scheduler uses, and \<open>timers\<close>, the number
  of \<open>setTimeout\<close> callbacks \<open>waitForPageAndInject\<close> has scheduled.
\<close>

record content =
  isInitialized :: bool
  currentPlatform :: "platform option"
  retryCount :: nat
  maxRetries :: nat
  timers :: nat

definition newContent :: content where
  "newContent = \<lparr> isInitialized = False, currentPlatform = None, retryCount = 0,
                   maxRetries = 5, timers = 0 \<rparr>"

definition waitForPageAndInject :: "content \<Rightarrow> document \<Rightarrow> content \<times> document" where
  "waitForPageAndInject c doc =
     (if maxRetries c \<le> retryCount c then (c, doc)
      else
        case tryInjectButton (currentPlatform c) doc of
          (True, doc') \<Rightarrow> (c, doc')
        | (False, doc') \<Rightarrow>
            (c\<lparr> retryCount := retryCount c + 1, timers := timers c + 1 \<rparr>, doc'))"

text \<open>Whether the page offers a place to attach the control: an anchor candidate or a body.\<close>

definition hasInjectionPoint :: "document \<Rightarrow> bool" where
  "hasInjectionPoint doc \<longleftrightarrow> firstTarget doc targets \<noteq> None \<or> body doc \<noteq> None"

text \<open>Two runs of the scheduler in immediate succession, no timer firing in between.\<close>

definition injectTwice :: "content \<Rightarrow> document \<Rightarrow> content \<times> document" where
  "injectTwice c doc =
     (case waitForPageAndInject c doc of (c1, doc1) \<Rightarrow> waitForPageAndInject c1 doc1)"

subsection \<open>Sample pages\<close>

definition cartPage :: document where
  "cartPage =
     Some (Element (ascii ''html'') []
       [Element (ascii ''head'') [] [],
        Element (ascii ''body'') []
          [Element (ascii ''div'') [(ascii ''id'', ascii ''sc-active-cart'')] [],
           Element (ascii ''div'') [(ascii ''class'', ascii ''footer'')] []]])"

definition headOnlyPage :: document where
  "headOnlyPage = Some (Element (ascii ''html'') [] [Element (ascii ''head'') [] []])"

definition amazonContent :: content where
  "amazonContent = newContent\<lparr> currentPlatform := Some amazonPlatform \<rparr>"

subsection \<open>Sample rows\<close>

text \<open>
  A row priced in rupees with a thousands separator, a row whose price text is a word,
  a row without title element, a row whose price text reads \<open>Infinity\<close>, and a row
  priced in euros (U+20AC).
\<close>

definition rupeeRow :: row where
  "rupeeRow = \<lparr> titleElement = Some (ascii ''  Sony WH-1000XM5 ''),
                priceElement = Some (0x20B9 # ascii ''1,299.00'') \<rparr>"

definition freeRow :: row where
  "freeRow = \<lparr> titleElement = Some (ascii ''Sample sachet''), priceElement = Some (ascii ''Free'') \<rparr>"

definition untitledRow :: row where
  "untitledRow = \<lparr> titleElement = None, priceElement = Some (ascii ''$5.00'') \<rparr>"

definition infinityRow :: row where
  "infinityRow = \<lparr> titleElement = Some (ascii ''Gift card''), priceElement = Some (ascii ''Infinity'') \<rparr>"

definition euroRow :: row where
  "euroRow = \<lparr> titleElement = Some (ascii ''Espresso''), priceElement = Some (0x20AC # ascii ''12.00'') \<rparr>"

section \<open>background.js: the request orchestrator\<close>

text \<open>The payload of an \<open>ANALYZE_CART\<close> message, as \<open>handleAnalyzeClick\<close> sends it.\<close>

record cart_data =
  cd_sourceRetailer :: ustring
  cd_items :: "cart_item list"

record user_context =
  country :: ustring
  postalCode :: ustring

record api_payload =
  userContext :: user_context
  sourceRetailer :: ustring
  items :: "cart_item list"

text \<open>
  \<open>analyzeCart\<close> is an async function with two suspension points: \<open>await fetch(...)\<close>
  and \<open>await response.json()\<close>.  A suspended call is recorded in \<open>pending\<close> with the
  point it waits at; \<open>fetchCalls\<close> logs every network call issued.
\<close>

datatype stage = AwaitFetch | AwaitJson

record 'r bg_state =
  analysisResults :: "int \<rightharpoonup> 'r"
  analysisErrors :: "int \<rightharpoonup> ustring"
  loadingStates :: "int \<rightharpoonup> bool"
  badgeText :: "int \<Rightarrow> ustring"
  badgeBackgroundColor :: "int \<rightharpoonup> ustring"
  fetchCalls :: "(int \<times> api_payload) list"
  pending :: "(int \<times> stage) list"

definition initial :: "'r bg_state" where
  "initial = \<lparr> analysisResults = Map.empty, analysisErrors = Map.empty,
               loadingStates = Map.empty, badgeText = (\<lambda>_. []),
               badgeBackgroundColor = Map.empty, fetchCalls = [], pending = [] \<rparr>"

text \<open>
  The synchronous part of \<open>analyzeCart\<close>, up to and including the call of \<open>fetch\<close>:
  the guard on \<open>loadingStates\<close>, the three map updates, the payload, the network call.
\<close>

definition analyzeCart :: "cart_data \<Rightarrow> int \<Rightarrow> 'r bg_state \<Rightarrow> 'r bg_state" where
  "analyzeCart cartData tabId s =
     (if loadingStates s tabId = Some True then s
      else
        let s1 = s\<lparr> loadingStates := (loadingStates s)(tabId \<mapsto> True),
                    analysisResults := (analysisResults s)(tabId := None),
                    analysisErrors := (analysisErrors s)(tabId := None) \<rparr>;
            inIndia = str_includes (cd_sourceRetailer cartData) (ascii ''.in'');
            ctx = \<lparr> country = (if inIndia then ascii ''IN'' else ascii ''US''),
                    postalCode = (if inIndia then ascii ''560001'' else ascii ''90210'') \<rparr>;
            payload = \<lparr> userContext = ctx,
                        sourceRetailer = cd_sourceRetailer cartData,
                        items = cd_items cartData \<rparr>
        in s1\<lparr> fetchCalls := fetchCalls s1 @ [(tabId, payload)],
                pending := pending s1 @ [(tabId, AwaitFetch)] \<rparr>)"

text \<open>The \<open>catch\<close> block followed by the \<open>finally\<close> block; \<open>msg\<close> is \<open>error.message\<close>.\<close>

definition analyzeCartCatch :: "ustring \<Rightarrow> int \<Rightarrow> 'r bg_state \<Rightarrow> 'r bg_state" where
  "analyzeCartCatch msg tabId s =
     s\<lparr> analysisErrors := (analysisErrors s)(tabId \<mapsto> msg),
        badgeText := (badgeText s)(tabId := ascii ''!''),
        badgeBackgroundColor := (badgeBackgroundColor s)(tabId \<mapsto> ascii ''#dc3545''),
        loadingStates := (loadingStates s)(tabId \<mapsto> False) \<rparr>"

text \<open>The end of the \<open>try\<close> block after a parsed body, followed by \<open>finally\<close>.\<close>

definition analyzeCartSuccess :: "'r \<Rightarrow> int \<Rightarrow> 'r bg_state \<Rightarrow> 'r bg_state" where
  "analyzeCartSuccess result tabId s =
     s\<lparr> analysisResults := (analysisResults s)(tabId \<mapsto> result),
        badgeText := (badgeText s)(tabId := [0x2713]),
        badgeBackgroundColor := (badgeBackgroundColor s)(tabId \<mapsto> ascii ''#28a745''),
        loadingStates := (loadingStates s)(tabId \<mapsto> False) \<rparr>"

record response =
  status :: nat
  statusText :: ustring

text \<open>\<open>response.ok\<close> is true exactly for a status in the range 200 to 299.\<close>

definition ok :: "response \<Rightarrow> bool" where
  "ok r = (200 \<le> status r \<and> status r \<le> 299)"

text \<open>
  How the environment settles the two awaited promises: \<open>fetch\<close> rejects with an
  error (a network error) or resolves with a response; \<open>response.json()\<close> rejects
  with an error (a parse error) or resolves with the parsed body.
\<close>

datatype fetch_outcome = FetchRejected ustring | FetchResolved response

datatype 'r json_outcome = JsonRejected ustring | JsonResolved 'r

definition statusMessage :: "response \<Rightarrow> ustring" where
  "statusMessage r =
     ascii ''API responded with status: '' @ showNat (status r) @ ascii '' - '' @ statusText r"

definition resumeAfterFetch :: "fetch_outcome \<Rightarrow> int \<Rightarrow> 'r bg_state \<Rightarrow> 'r bg_state" where
  "resumeAfterFetch outcome tabId s =
     (let s0 = s\<lparr> pending := remove1 (tabId, AwaitFetch) (pending s) \<rparr> in
      case outcome of
        FetchRejected msg \<Rightarrow> analyzeCartCatch msg tabId s0
      | FetchResolved r \<Rightarrow>
          if \<not> ok r then analyzeCartCatch (statusMessage r) tabId s0
          else s0\<lparr> pending := pending s0 @ [(tabId, AwaitJson)] \<rparr>)"

definition resumeAfterJson :: "'r json_outcome \<Rightarrow> int \<Rightarrow> 'r bg_state \<Rightarrow> 'r bg_state" where
  "resumeAfterJson outcome tabId s =
     (let s0 = s\<lparr> pending := remove1 (tabId, AwaitJson) (pending s) \<rparr> in
      case outcome of
        JsonRejected msg \<Rightarrow> analyzeCartCatch msg tabId s0
      | JsonResolved result \<Rightarrow> analyzeCartSuccess result tabId s0)"

text \<open>Messages received by \<open>chrome.runtime.onMessage\<close>, by their \<open>type\<close> field.\<close>

datatype request = AnalyzeCartMsg cart_data | GetAnalysisResultMsg | OtherMsg

text \<open>
  The listener of \<open>chrome.runtime.onMessage\<close>; \<open>senderTab\<close> is \<open>sender.tab?.id\<close>
  (absent for a message that does not come from a tab).  An id is truthy when it is
  not 0.  The answer to \<open>GET_ANALYSIS_RESULT\<close> is \<open>getAnalysisResult\<close> below; that
  branch leaves the state as it is.
\<close>

definition onMessage :: "request \<Rightarrow> int option \<Rightarrow> 'r bg_state \<Rightarrow> 'r bg_state" where
  "onMessage req senderTab s =
     (case req of
        AnalyzeCartMsg cartData \<Rightarrow>
          (case senderTab of
             None \<Rightarrow> s
           | Some tabId \<Rightarrow>
               if tabId = 0 then s
               else
                 let s1 = analyzeCart cartData tabId s
                 in s1\<lparr> badgeText := (badgeText s1)(tabId := ascii ''...''),
                         badgeBackgroundColor :=
                           (badgeBackgroundColor s1)(tabId \<mapsto> ascii ''#ff007f'') \<rparr>)
      | GetAnalysisResultMsg \<Rightarrow> s
      | OtherMsg \<Rightarrow> s)"

text \<open>
  The object passed to \<open>sendResponse\<close>.  \<open>None\<close> stands for an absent value: the
  \<open>undefined\<close> that \<open>Map.get\<close> returns for a missing key, or the literal \<open>null\<close>.
\<close>

record 'r snapshot =
  isLoading :: bool
  result :: "'r option"
  error :: "ustring option"

text \<open>
  The \<open>GET_ANALYSIS_RESULT\<close> branch; \<open>activeTab\<close> is \<open>tabs[0]?.id\<close> of the tab query.
\<close>

definition getAnalysisResult :: "'r bg_state \<Rightarrow> int option \<Rightarrow> 'r snapshot" where
  "getAnalysisResult s activeTab =
     (case activeTab of
        None \<Rightarrow> \<lparr> isLoading = False, result = None, error = Some (ascii ''No active tab'') \<rparr>
      | Some tabId \<Rightarrow>
          if tabId = 0
          then \<lparr> isLoading = False, result = None, error = Some (ascii ''No active tab'') \<rparr>
          else \<lparr> isLoading = (loadingStates s tabId = Some True),
                 result = analysisResults s tabId,
                 error = analysisErrors s tabId \<rparr>)"

text \<open>
  The listener of \<open>chrome.tabs.onUpdated\<close>; \<open>st\<close> is \<open>changeInfo.status\<close>, absent
  when the update is not a change of loading status.
\<close>

definition tabsOnUpdated :: "int \<Rightarrow> ustring option \<Rightarrow> 'r bg_state \<Rightarrow> 'r bg_state" where
  "tabsOnUpdated tabId st s =
     (if st = Some (ascii ''complete'')
      then s\<lparr> badgeText := (badgeText s)(tabId := []) \<rparr>
      else s)"

text \<open>
  The events the service worker reacts to.  A promise can only settle for a call that
  is suspended at it, so a settlement for a tab with no such pending call is no event
  of the system and leaves the state alone.
\<close>

datatype 'r event =
    Message request "int option"
  | TabUpdated int "ustring option"
  | FetchSettled int fetch_outcome
  | JsonSettled int "'r json_outcome"

definition step :: "'r bg_state \<Rightarrow> 'r event \<Rightarrow> 'r bg_state" where
  "step s ev =
     (case ev of
        Message req senderTab \<Rightarrow> onMessage req senderTab s
      | TabUpdated tabId st \<Rightarrow> tabsOnUpdated tabId st s
      | FetchSettled tabId outcome \<Rightarrow>
          if (tabId, AwaitFetch) \<in> set (pending s) then resumeAfterFetch outcome tabId s else s
      | JsonSettled tabId outcome \<Rightarrow>
          if (tabId, AwaitJson) \<in> set (pending s) then resumeAfterJson outcome tabId s else s)"

definition run :: "'r event list \<Rightarrow> 'r bg_state" where
  "run evs = foldl step initial evs"

text \<open>
  The session invariant of the orchestrator: at most one suspended call per tab, and a
  tab with a suspended call has its loading flag set and neither a result nor an error
  stored; no tab has both a result and an error.
\<close>

definition consistent :: "'r bg_state \<Rightarrow> bool" where
  "consistent s \<longleftrightarrow>
     distinct (map fst (pending s))
   \<and> (\<forall>p \<in> set (pending s).
        fst p \<noteq> 0 \<and> loadingStates s (fst p) = Some True
      \<and> analysisResults s (fst p) = None \<and> analysisErrors s (fst p) = None)
   \<and> (\<forall>t. analysisResults s t = None \<or> analysisErrors s t = None)"

text \<open>
  A settlement that makes the call fail, with the tab, the suspension point it resumes
  and the message of the error that reaches the \<open>catch\<close> block: a rejected
  \<open>fetch\<close> (network error), a response that is not \<open>ok\<close> (the error thrown by the
  code itself), a rejected \<open>response.json()\<close> (parse error).
\<close>

definition failure :: "'r event \<Rightarrow> (int \<times> stage \<times> ustring) option" where
  "failure ev =
     (case ev of
        FetchSettled t (FetchRejected msg) \<Rightarrow> Some (t, AwaitFetch, msg)
      | FetchSettled t (FetchResolved r) \<Rightarrow>
          if ok r then None else Some (t, AwaitFetch, statusMessage r)
      | JsonSettled t (JsonRejected msg) \<Rightarrow> Some (t, AwaitJson, msg)
      | _ \<Rightarrow> None)"


subsection \<open>Sample runs\<close>

text \<open>
  The scenario of the specification: one item sent from \<open>amazon.in\<close> in tab 7, answered
  with a body (here its total savings, 4000), or with HTTP 500, or followed by a page
  load that completes while the call is in flight.
\<close>

definition sampleItem :: cart_item where
  "sampleItem = \<lparr> productTitle = ascii ''Sony WH-1000XM5'', price = Num 29990,
                  quantity = 1, currency = ascii ''INR'' \<rparr>"

definition sampleCart :: cart_data where
  "sampleCart = \<lparr> cd_sourceRetailer = ascii ''amazon.in'', cd_items = [sampleItem] \<rparr>"

definition requestedRun :: "rat event list" where
  "requestedRun = [Message (AnalyzeCartMsg sampleCart) (Some 7)]"

definition completedRun :: "rat event list" where
  "completedRun =
     [Message (AnalyzeCartMsg sampleCart) (Some 7),
      FetchSettled 7 (FetchResolved \<lparr> status = 200, statusText = ascii ''OK'' \<rparr>),
      JsonSettled 7 (JsonResolved 4000)]"

definition navigatedRun :: "rat event list" where
  "navigatedRun =
     [Message (AnalyzeCartMsg sampleCart) (Some 7), TabUpdated 7 (Some (ascii ''complete''))]"

definition http500 :: "rat event" where
  "http500 = FetchSettled 7 (FetchResolved \<lparr> status = 500, statusText = ascii ''Internal Server Error'' \<rparr>)"

section \<open>The session invariant\<close>

declare showNat.simps [simp del]

lemmas run_simps = run_def step_def onMessage_def analyzeCart_def tabsOnUpdated_def
  resumeAfterFetch_def resumeAfterJson_def analyzeCartCatch_def analyzeCartSuccess_def
  initial_def Let_def ok_def

lemma remove1_fst_notin:
  "distinct (map fst ps) \<Longrightarrow> (t, st) \<in> set ps \<Longrightarrow> t \<notin> fst ` set (remove1 (t, st) ps)"
proof (induction ps)
  case Nil
  then show ?case by simp
next
  case (Cons p ps)
  show ?case
  proof (cases "p = (t, st)")
    case True
    with Cons.prems show ?thesis by (auto simp: image_iff)
  next
    case False
    with Cons show ?thesis by (auto simp: image_iff)
  qed
qed

lemma distinct_fst_remove1: "distinct (map fst ps) \<Longrightarrow> distinct (map fst (remove1 x ps))"
  by (induction ps) (auto dest: notin_set_remove1 simp: image_iff)

lemma consistent_initial: "consistent initial"
  by (simp add: consistent_def initial_def)

lemma consistent_analyzeCart:
  assumes "consistent s" "t \<noteq> 0"
  shows "consistent (analyzeCart c t s)"
proof (cases "loadingStates s t = Some True")
  case True
  with assms show ?thesis by (simp add: analyzeCart_def)
next
  case False
  with assms have "t \<notin> fst ` set (pending s)"
    by (auto simp: consistent_def)
  with assms False show ?thesis
    by (auto simp: consistent_def analyzeCart_def Let_def image_iff)
qed

lemma consistent_badge:
  "consistent (s\<lparr>badgeText := b, badgeBackgroundColor := c\<rparr>) = consistent s"
  "consistent (s\<lparr>badgeText := b\<rparr>) = consistent s"
  by (simp_all add: consistent_def)

lemma consistent_onMessage: "consistent s \<Longrightarrow> consistent (onMessage req tab s)"
  by (auto simp: onMessage_def Let_def consistent_badge consistent_analyzeCart
           split: request.splits option.splits)

lemma consistent_tabsOnUpdated: "consistent s \<Longrightarrow> consistent (tabsOnUpdated t st s)"
  by (simp add: tabsOnUpdated_def consistent_badge)

lemma consistent_catch:
  assumes "consistent s" "(t, st) \<in> set (pending s)"
  shows "consistent (analyzeCartCatch msg t (s\<lparr>pending := remove1 (t, st) (pending s)\<rparr>))"
proof -
  from assms have d: "distinct (map fst (pending s))" by (simp add: consistent_def)
  have n: "t \<notin> fst ` set (remove1 (t, st) (pending s))"
    using remove1_fst_notin [OF d assms(2)] .
  have r: "analysisResults s t = None" using assms by (auto simp: consistent_def)
  have sub: "\<And>p. p \<in> set (remove1 (t, st) (pending s)) \<Longrightarrow> p \<in> set (pending s) \<and> fst p \<noteq> t"
    using n by (auto dest: notin_set_remove1 simp: image_iff)
  show ?thesis
    using assms(1) r sub distinct_fst_remove1 [OF d]
    by (auto simp: consistent_def analyzeCartCatch_def)
qed

lemma consistent_success:
  assumes "consistent s" "(t, st) \<in> set (pending s)"
  shows "consistent (analyzeCartSuccess r t (s\<lparr>pending := remove1 (t, st) (pending s)\<rparr>))"
proof -
  from assms have d: "distinct (map fst (pending s))" by (simp add: consistent_def)
  have n: "t \<notin> fst ` set (remove1 (t, st) (pending s))"
    using remove1_fst_notin [OF d assms(2)] .
  have e: "analysisErrors s t = None" using assms by (auto simp: consistent_def)
  have sub: "\<And>p. p \<in> set (remove1 (t, st) (pending s)) \<Longrightarrow> p \<in> set (pending s) \<and> fst p \<noteq> t"
    using n by (auto dest: notin_set_remove1 simp: image_iff)
  show ?thesis
    using assms(1) e sub distinct_fst_remove1 [OF d]
    by (auto simp: consistent_def analyzeCartSuccess_def)
qed

lemma consistent_restage:
  assumes "consistent s" "(t, st) \<in> set (pending s)"
  shows "consistent (s\<lparr>pending := remove1 (t, st) (pending s) @ [(t, st')]\<rparr>)"
proof -
  from assms have d: "distinct (map fst (pending s))" by (simp add: consistent_def)
  have n: "t \<notin> fst ` set (remove1 (t, st) (pending s))"
    using remove1_fst_notin [OF d assms(2)] .
  have sub: "\<And>p. p \<in> set (remove1 (t, st) (pending s)) \<Longrightarrow> p \<in> set (pending s)"
    by (meson notin_set_remove1)
  have here: "t \<noteq> 0 \<and> loadingStates s t = Some True \<and> analysisResults s t = None \<and> analysisErrors s t = None"
    using assms by (auto simp: consistent_def)
  show ?thesis
    using assms(1) n sub here distinct_fst_remove1 [OF d]
    by (auto simp: consistent_def)
qed

lemma consistent_resumeAfterFetch:
  "consistent s \<Longrightarrow> (t, AwaitFetch) \<in> set (pending s) \<Longrightarrow> consistent (resumeAfterFetch out t s)"
  by (cases out) (simp_all add: resumeAfterFetch_def Let_def consistent_catch consistent_restage)

lemma consistent_resumeAfterJson:
  "consistent s \<Longrightarrow> (t, AwaitJson) \<in> set (pending s) \<Longrightarrow> consistent (resumeAfterJson out t s)"
  by (cases out) (simp_all add: resumeAfterJson_def Let_def consistent_catch consistent_success)

lemma consistent_step: "consistent s \<Longrightarrow> consistent (step s ev)"
  by (cases ev)
     (simp_all add: step_def consistent_onMessage consistent_tabsOnUpdated
        consistent_resumeAfterFetch consistent_resumeAfterJson)

lemma consistent_foldl: "consistent s \<Longrightarrow> consistent (foldl step s evs)"
  by (induction evs arbitrary: s) (simp_all add: consistent_step)

lemma consistent_run: "consistent (run evs)"
  by (simp add: run_def consistent_foldl consistent_initial)

lemma run_exclusive: "analysisResults (run evs) tab = None \<or> analysisErrors (run evs) tab = None"
proof -
  have "\<forall>t. analysisResults (run evs) t = None \<or> analysisErrors (run evs) t = None"
    using consistent_run [of evs] unfolding consistent_def by (elim conjE)
  then show ?thesis by (rule spec)
qed

lemma pending_facts:
  assumes "(t, stg) \<in> set (pending (run evs))"
  shows "t \<noteq> 0" "analysisResults (run evs) t = None" "analysisErrors (run evs) t = None"
    "loadingStates (run evs) t = Some True"
    "t \<notin> fst ` set (remove1 (t, stg) (pending (run evs)))"
proof -
  have c: "consistent (run evs)" by (rule consistent_run)
  then have b: "\<forall>p \<in> set (pending (run evs)).
        fst p \<noteq> 0 \<and> loadingStates (run evs) (fst p) = Some True
      \<and> analysisResults (run evs) (fst p) = None \<and> analysisErrors (run evs) (fst p) = None"
    unfolding consistent_def by (elim conjE)
  from bspec [OF b assms]
  show "t \<noteq> 0" "analysisResults (run evs) t = None" "analysisErrors (run evs) t = None"
    "loadingStates (run evs) t = Some True" by simp_all
  from c have "distinct (map fst (pending (run evs)))" unfolding consistent_def by (elim conjE)
  then show "t \<notin> fst ` set (remove1 (t, stg) (pending (run evs)))"
    using assms by (rule remove1_fst_notin)
qed

lemma failure_step:
  assumes "failure ev = Some (t, stg, msg)" "(t, stg) \<in> set (pending s)"
  shows "step s ev = analyzeCartCatch msg t (s\<lparr>pending := remove1 (t, stg) (pending s)\<rparr>)"
proof (cases ev)
  case (FetchSettled t' out)
  with assms show ?thesis
    by (cases out) (auto simp: failure_def step_def resumeAfterFetch_def Let_def split: if_splits)
next
  case (JsonSettled t' out)
  with assms show ?thesis
    by (cases out) (auto simp: failure_def step_def resumeAfterJson_def Let_def)
qed (use assms in \<open>simp_all add: failure_def\<close>)


lemma http500_failure:
  "failure http500
     = Some (7, AwaitFetch, ascii ''API responded with status: 500 - Internal Server Error'')"
  by (simp add: http500_def failure_def ok_def statusMessage_def ascii_def showNat.simps)

lemma requestedRun_pending: "(7, AwaitFetch) \<in> set (pending (run requestedRun))"
  by (simp add: requestedRun_def run_simps)

lemma completedRun_state:
  "loadingStates (run completedRun) 7 = Some False"
  "analysisResults (run completedRun) 7 = Some 4000"
  "analysisErrors (run completedRun) 7 = None"
  "badgeText (run completedRun) 7 = [0x2713]"
  by (simp_all add: completedRun_def run_simps)

section \<open>Strings\<close>

lemma isPrefixOf_iff: "isPrefixOf xs ys \<longleftrightarrow> (\<exists>zs. ys = xs @ zs)"
  by (induction xs arbitrary: ys) (auto split: list.splits)

lemma str_includes_iff: "str_includes s p \<longleftrightarrow> (\<exists>xs zs. s = xs @ p @ zs)"
proof (induction s)
  case Nil
  then show ?case by simp
next
  case (Cons c cs)
  show ?case
  proof
    assume "str_includes (c # cs) p"
    then consider "isPrefixOf p (c # cs)" | "str_includes cs p" by auto
    then show "\<exists>xs zs. c # cs = xs @ p @ zs"
    proof cases
      case 1
      then obtain zs where "c # cs = p @ zs" by (auto simp: isPrefixOf_iff)
      then have "c # cs = [] @ p @ zs" by simp
      then show ?thesis by blast
    next
      case 2
      with Cons.IH obtain xs zs where "cs = xs @ p @ zs" by blast
      then have "c # cs = (c # xs) @ p @ zs" by simp
      then show ?thesis by blast
    qed
  next
    assume "\<exists>xs zs. c # cs = xs @ p @ zs"
    then obtain xs zs where eq: "c # cs = xs @ p @ zs" by blast
    show "str_includes (c # cs) p"
    proof (cases xs)
      case Nil
      with eq have "isPrefixOf p (c # cs)" by (auto simp: isPrefixOf_iff)
      then show ?thesis by simp
    next
      case (Cons x xs')
      with eq have "cs = xs' @ p @ zs" by simp
      with Cons.IH have "str_includes cs p" by blast
      then show ?thesis by simp
    qed
  qed
qed

lemma endsWith_iff: "endsWith s p \<longleftrightarrow> (\<exists>xs. s = xs @ p)"
proof -
  have "endsWith s p \<longleftrightarrow> (\<exists>zs. rev s = rev p @ zs)"
    by (simp add: endsWith_def isPrefixOf_iff)
  also have "\<dots> \<longleftrightarrow> (\<exists>xs. s = xs @ p)"
  proof
    assume "\<exists>zs. rev s = rev p @ zs"
    then obtain zs where "rev s = rev p @ zs" by blast
    then have "s = rev zs @ p" by (metis rev_append rev_rev_ident)
    then show "\<exists>xs. s = xs @ p" by blast
  next
    assume "\<exists>xs. s = xs @ p"
    then obtain xs where "s = xs @ p" by blast
    then have "rev s = rev p @ rev xs" by simp
    then show "\<exists>zs. rev s = rev p @ zs" by blast
  qed
  finally show ?thesis .
qed

lemma endsWith_includes: "endsWith s p \<Longrightarrow> str_includes s p"
proof -
  assume "endsWith s p"
  then obtain xs where "s = xs @ p @ []" by (auto simp: endsWith_iff)
  then show ?thesis unfolding str_includes_iff by blast
qed

section \<open>Extraction as filter and map\<close>

lemma scrapeRow_step:
  "scrapeRow h acc r = (if wellFormed r then acc @ [keptItem h r] else acc)"
  by (simp add: scrapeRow_def wellFormed_def keptItem_def titleOf_def priceOf_def Let_def
           split: option.splits)

lemma foldl_scrapeRow:
  "foldl (scrapeRow h) acc rows = acc @ map (keptItem h) (filter wellFormed rows)"
  by (induction rows arbitrary: acc) (simp_all add: scrapeRow_step)

lemma scrapeCartItems_eq:
  "scrapeCartItems (Some p) h rows = map (keptItem h) (filter wellFormed rows)"
  by (simp add: scrapeCartItems_def foldl_scrapeRow)

lemma scrapeCartItems_currency:
  "item \<in> set (scrapeCartItems plat h rows) \<Longrightarrow> currency item = detectCurrency h"
  by (cases plat) (auto simp: scrapeCartItems_def foldl_scrapeRow keptItem_def)

lemmas parse_simps = parseFloat_def ascii_def isWhiteSpace_def isDigit_def digitsValue_def
  exponentPart_def toDouble_def floorLog2_def roundHalfEven_def Let_def trim_def
  stripPriceText_def

lemma rupeeRow_price: "priceOf rupeeRow = Num 1299"
  by (simp add: rupeeRow_def priceOf_def parse_simps)

lemma rupeeRow_title: "titleOf rupeeRow = ascii ''Sony WH-1000XM5''"
  by (simp add: rupeeRow_def titleOf_def parse_simps)

lemma rupeeRow_wf: "wellFormed rupeeRow"
  by (simp add: wellFormed_def rupeeRow_price rupeeRow_title isNaN_def greaterThanZero_def)
     (simp add: rupeeRow_def ascii_def)

lemma freeRow_price: "priceOf freeRow = NaN"
  by (simp add: freeRow_def priceOf_def parse_simps)

lemma freeRow_wf: "\<not> wellFormed freeRow"
  by (simp add: wellFormed_def freeRow_price isNaN_def)

lemma untitledRow_wf: "\<not> wellFormed untitledRow"
  by (simp add: wellFormed_def untitledRow_def)

lemma infinityRow_price: "priceOf infinityRow = PosInfinity"
  by (simp add: infinityRow_def priceOf_def parse_simps)

lemma infinityRow_wf: "wellFormed infinityRow"
  by (simp add: wellFormed_def infinityRow_price isNaN_def greaterThanZero_def)
     (simp add: infinityRow_def titleOf_def parse_simps)

lemma euroRow_price: "priceOf euroRow = NaN"
  by (simp add: euroRow_def priceOf_def parse_simps)

section \<open>Detection as a search of the catalog\<close>

lemma find_host_only:
  assumes "length (filter hit as) \<le> 1"
  shows "map_option f (find (\<lambda>a. hit a \<and> okUrl a) as)
         = (case find hit as of None \<Rightarrow> None | Some a \<Rightarrow> if okUrl a then Some (f a) else None)"
  using assms
proof (induction as)
  case Nil
  then show ?case by simp
next
  case (Cons a as)
  show ?case
  proof (cases "hit a")
    case True
    with Cons.prems have "filter hit as = []" by simp
    then have none: "\<forall>x \<in> set as. \<not> hit x" by (simp add: filter_empty_conv)
    then have "find (\<lambda>a. hit a \<and> okUrl a) as = None" by (auto simp: find_None_iff)
    with True show ?thesis by simp
  next
    case False
    with Cons show ?thesis by simp
  qed
qed

lemma firstHostMatch_Some:
  "(case find hit as of None \<Rightarrow> None | Some a \<Rightarrow> if okUrl a then Some (f a) else None) = Some p
   \<Longrightarrow> map_option f (find (\<lambda>a. hit a \<and> okUrl a) as) = Some p"
  by (induction as) (auto split: if_splits)

lemma firstHostMatch_None:
  "find (\<lambda>a. hit a \<and> okUrl a) as = None
   \<Longrightarrow> (case find hit as of None \<Rightarrow> None | Some a \<Rightarrow> if okUrl a then Some (f a) else None) = None"
  by (induction as) (auto split: if_splits)

lemma detectPlatform_firstHostMatch:
  "detectPlatform url hostname = firstHostMatch adapterCatalog url hostname"
  by (simp add: detectPlatform_def firstHostMatch_def adapterCatalog_def)

lemma identify_firstHostMatch:
  assumes "hostTokenHits hostname \<le> 1"
  shows "identify url hostname = firstHostMatch adapterCatalog url hostname"
  using find_host_only [of "\<lambda>a. str_includes hostname (hostToken a)" adapterCatalog
      adapterPlatform "\<lambda>a. urlRule a url"] assms
  by (simp add: identify_def firstHostMatch_def hostTokenHits_def matchRule_def)

lemma detectPlatform_Some_identify:
  "detectPlatform url hostname = Some p \<Longrightarrow> identify url hostname = Some p"
  unfolding detectPlatform_firstHostMatch firstHostMatch_def identify_def matchRule_def
  by (rule firstHostMatch_Some)

lemma identify_None_detectPlatform:
  "identify url hostname = None \<Longrightarrow> detectPlatform url hostname = None"
  unfolding detectPlatform_firstHostMatch firstHostMatch_def identify_def matchRule_def
  by (simp add: firstHostMatch_None)

lemmas detect_simps = detectPlatform_def ascii_def

lemma catalog_pages:
  "detectPlatform (ascii ''https://www.amazon.in/gp/cart/view.html'') (ascii ''www.amazon.in'')
     = Some amazonPlatform"
  "detectPlatform (ascii ''https://www.flipkart.com/viewcart'') (ascii ''www.flipkart.com'')
     = Some flipkartPlatform"
  "detectPlatform (ascii ''https://www.bigbasket.com/basket/'') (ascii ''www.bigbasket.com'')
     = Some bigbasketPlatform"
  "detectPlatform (ascii ''https://www.swiggy.com/instamart/cart'') (ascii ''www.swiggy.com'')
     = Some swiggyPlatform"
  "detectPlatform (ascii ''https://www.walmart.com/cart'') (ascii ''www.walmart.com'')
     = Some walmartPlatform"
  "detectPlatform (ascii ''https://www.target.com/cart'') (ascii ''www.target.com'')
     = Some targetPlatform"
  "detectPlatform (ascii ''https://www.amazon.in/dp/B09XS7JWHH'') (ascii ''www.amazon.in'') = None"
  "detectPlatform (ascii ''https://www.example.org/cart'') (ascii ''www.example.org'') = None"
  by (simp_all add: detect_simps)

lemma amazon_in_hits: "hostTokenHits (ascii ''www.amazon.in'') = 1"
  by (simp add: hostTokenHits_def adapterCatalog_def ascii_def)

section \<open>The page tree and the trigger control\<close>

lemma matchesSelector_cong:
  "tagName e = tagName e' \<Longrightarrow> attributes e = attributes e'
   \<Longrightarrow> matchesSelector s e = matchesSelector s e'"
  by (cases s) (simp_all add: attrContains_def getAttribute_def)

lemma countMatches_unfold:
  "countMatches P e = (if P e then 1 else 0) + sum_list (map (countMatches P) (childNodes e))"
  by (cases e) simp

lemma sum_list_map_update:
  fixes f :: "'a \<Rightarrow> nat"
  assumes "i < length ks" "f x = f (ks ! i) + n"
  shows "sum_list (map f (ks[i := x])) = sum_list (map f ks) + n"
proof -
  have "ks[i := x] = take i ks @ x # drop (Suc i) ks"
    using assms(1) by (rule upd_conv_take_nth_drop)
  moreover have "ks = take i ks @ ks ! i # drop (Suc i) ks"
    using assms(1) by (rule id_take_nth_drop)
  ultimately have "sum_list (map f (ks[i := x]))
      = sum_list (map f (take i ks)) + f x + sum_list (map f (drop (Suc i) ks))"
    and "sum_list (map f ks)
      = sum_list (map f (take i ks)) + f (ks ! i) + sum_list (map f (drop (Suc i) ks))"
    by (metis (no_types) add.assoc list.simps(9) map_append sum_list.Cons sum_list_append)+
  with assms(2) show ?thesis by simp
qed

lemma countMatches_append:
  "validPath p e \<Longrightarrow>
   countMatches (matchesSelector s) (appendChildAt p b e)
     = countMatches (matchesSelector s) e + countMatches (matchesSelector s) b"
proof (induction p arbitrary: e)
  case Nil
  have "matchesSelector s (Element (tagName e) (attributes e) (childNodes e @ [b]))
        = matchesSelector s e"
    by (rule matchesSelector_cong) simp_all
  then show ?case
    by (simp add: countMatches_unfold [of _ e])
next
  case (Cons i p)
  let ?k = "childNodes e ! i"
  let ?e' = "Element (tagName e) (attributes e) ((childNodes e)[i := appendChildAt p b ?k])"
  from Cons.prems have i: "i < length (childNodes e)" and v: "validPath p ?k" by simp_all
  have ih: "countMatches (matchesSelector s) (appendChildAt p b ?k)
     = countMatches (matchesSelector s) ?k + countMatches (matchesSelector s) b"
    using Cons.IH [OF v] .
  have m: "matchesSelector s ?e' = matchesSelector s e"
    by (rule matchesSelector_cong) simp_all
  have "countMatches (matchesSelector s) ?e'
      = (if matchesSelector s e then 1 else 0)
        + sum_list (map (countMatches (matchesSelector s))
            ((childNodes e)[i := appendChildAt p b ?k]))"
    using m by simp
  also have "\<dots> = (if matchesSelector s e then 1 else 0)
        + (sum_list (map (countMatches (matchesSelector s)) (childNodes e))
           + countMatches (matchesSelector s) b)"
    using sum_list_map_update [OF i ih] by simp
  also have "\<dots> = countMatches (matchesSelector s) e + countMatches (matchesSelector s) b"
    by (simp add: countMatches_unfold [of _ e])
  finally show ?case using i by simp
qed

lemma locate_valid:
  "locate P e = Some p \<Longrightarrow> validPath p e"
  "locateIn P ks i = Some p \<Longrightarrow>
     \<exists>j q. p = (i + j) # q \<and> j < length ks \<and> validPath q (ks ! j)"
proof (induction P e and P ks i arbitrary: p and p rule: locate_locateIn.induct)
  case (1 P t as ks)
  show ?case
  proof (cases "P (Element t as ks)")
    case True
    with "1.prems" show ?thesis by simp
  next
    case False
    with "1.prems" have "locateIn P ks 0 = Some p" by simp
    from "1.IH" [OF False this] show ?thesis by auto
  qed
next
  case (2 P i)
  then show ?case by simp
next
  case (3 P k ks i)
  show ?case
  proof (cases "locate P k")
    case None
    with "3.prems" have "locateIn P ks (Suc i) = Some p" by simp
    from "3.IH"(2) [OF None this]
    obtain j q where "p = (Suc i + j) # q" "j < length ks" "validPath q (ks ! j)" by blast
    then have "p = (i + Suc j) # q \<and> Suc j < length (k # ks) \<and> validPath q ((k # ks) ! Suc j)"
      by simp
    then show ?thesis by blast
  next
    case (Some q)
    with "3.prems" have p: "p = i # q" by simp
    from "3.IH"(1) [OF Some] have "validPath q k" .
    with p have "p = (i + 0) # q \<and> 0 < length (k # ks) \<and> validPath q ((k # ks) ! 0)" by simp
    then show ?thesis by blast
  qed
qed

lemma locate_None:
  "locate P e = None \<longleftrightarrow> countMatches P e = 0"
  "locateIn P ks i = None \<longleftrightarrow> (\<forall>k \<in> set ks. countMatches P k = 0)"
  by (induction P e and P ks i rule: locate_locateIn.induct)
     (auto split: option.splits)

lemma firstChild_bound:
  "firstChild P ks i = Some j \<Longrightarrow> i \<le> j \<and> j - i < length ks"
proof (induction ks arbitrary: i)
  case Nil
  then show ?case by simp
next
  case (Cons k ks)
  show ?case
  proof (cases "P k")
    case True
    with Cons.prems show ?thesis by simp
  next
    case False
    with Cons.prems have "firstChild P ks (Suc i) = Some j" by simp
    from Cons.IH [OF this] show ?thesis by auto
  qed
qed

lemma body_valid: "body (Some e) = Some p \<Longrightarrow> validPath p e"
  by (auto simp: body_def split: if_splits dest: firstChild_bound)

lemma firstTarget_valid: "firstTarget (Some e) sels = Some p \<Longrightarrow> validPath p e"
  by (induction sels) (auto simp: querySelector_def locate_valid(1) split: option.splits)

lemma firstTarget_None_doc [simp]: "firstTarget None sels = None"
  by (induction sels) (simp_all add: querySelector_def)

lemma button_count: "countMatches (matchesSelector marker) (createAnalyzeButton p) = 1"
  by (simp add: createAnalyzeButton_def marker_def getAttribute_def ascii_def isAsciiSpace_def)

lemma querySelector_marker: "querySelector doc marker = None \<longleftrightarrow> triggerCount doc = 0"
  by (cases doc) (simp_all add: querySelector_def triggerCount_def locate_None(1))

lemma tryInject_existing:
  "0 < triggerCount doc \<Longrightarrow> tryInjectButton plat doc = (True, doc)"
  using querySelector_marker [of doc] by (simp add: tryInjectButton_def)

lemma tryInject_result:
  "tryInjectButton plat doc = (True, doc') \<Longrightarrow> 0 < triggerCount doc'"
  "tryInjectButton plat doc = (False, doc') \<Longrightarrow> doc' = doc"
proof -
  show "tryInjectButton plat doc = (False, doc') \<Longrightarrow> doc' = doc"
    by (auto simp: tryInjectButton_def Let_def split: if_splits option.splits)
  assume ok: "tryInjectButton plat doc = (True, doc')"
  show "0 < triggerCount doc'"
  proof (cases "triggerCount doc = 0")
    case False
    then have "tryInjectButton plat doc = (True, doc)" by (simp add: tryInject_existing)
    with ok False show ?thesis by simp
  next
    case True
    then have q: "querySelector doc marker = None" by (simp add: querySelector_marker)
    from ok q obtain p path where plat: "plat = Some p"
      and tgt: "(case firstTarget doc targets of Some x \<Rightarrow> Some x | None \<Rightarrow> body doc) = Some path"
      and d': "doc' = map_option (appendChildAt path (createAnalyzeButton p)) doc"
      by (auto simp: tryInjectButton_def Let_def split: option.splits)
    show ?thesis
    proof (cases doc)
      case None
      with tgt show ?thesis by (simp add: body_def)
    next
      case (Some e)
      with tgt have "validPath path e"
        by (auto split: option.splits dest: firstTarget_valid body_valid)
      then show ?thesis
        using d' Some by (simp add: triggerCount_def countMatches_append button_count)
    qed
  qed
qed

lemma tryInject_fresh:
  assumes "triggerCount doc = 0" "hasInjectionPoint doc"
  shows "fst (tryInjectButton (Some p) doc) \<and> triggerCount (snd (tryInjectButton (Some p) doc)) = 1"
proof -
  from assms(1) have q: "querySelector doc marker = None" by (simp add: querySelector_marker)
  have "\<exists>path. (case firstTarget doc targets of Some x \<Rightarrow> Some x | None \<Rightarrow> body doc) = Some path"
  proof (cases "firstTarget doc targets")
    case None
    with assms(2) show ?thesis by (simp add: hasInjectionPoint_def)
  next
    case (Some x)
    then show ?thesis by simp
  qed
  then obtain path where
    tgt: "(case firstTarget doc targets of Some x \<Rightarrow> Some x | None \<Rightarrow> body doc) = Some path"
    by blast
  then obtain e where e: "doc = Some e" by (cases doc) (auto simp: body_def)
  with tgt have v: "validPath path e"
    by (auto split: option.splits dest: firstTarget_valid body_valid)
  from tgt have tgt':
    "(case firstTarget (Some e) targets of Some x \<Rightarrow> Some x | None \<Rightarrow> body (Some e)) = Some path"
    unfolding e .
  from q have q': "querySelector (Some e) marker = None" unfolding e .
  have "tryInjectButton (Some p) doc = (True, Some (appendChildAt path (createAnalyzeButton p) e))"
    unfolding e by (simp add: tryInjectButton_def Let_def q' tgt')
  then show ?thesis
    using v assms(1) e by (simp add: triggerCount_def countMatches_append button_count)
qed

lemma tryInject_twice:
  "tryInjectButton plat (snd (tryInjectButton plat doc)) = tryInjectButton plat doc"
proof (cases "tryInjectButton plat doc")
  case (Pair okay doc')
  show ?thesis
  proof (cases okay)
    case True
    with Pair have "0 < triggerCount doc'" by (simp add: tryInject_result(1))
    then have "tryInjectButton plat doc' = (True, doc')" by (rule tryInject_existing)
    with Pair True show ?thesis by simp
  next
    case False
    with Pair have "doc' = doc" by (simp add: tryInject_result(2))
    with Pair show ?thesis by simp
  qed
qed

lemma wait_page:
  "snd (waitForPageAndInject c doc)
   = (if maxRetries c \<le> retryCount c then doc else snd (tryInjectButton (currentPlatform c) doc))"
  by (auto simp: waitForPageAndInject_def split: prod.splits bool.splits)

lemma wait_fields:
  "currentPlatform (fst (waitForPageAndInject c doc)) = currentPlatform c"
  "maxRetries (fst (waitForPageAndInject c doc)) = maxRetries c"
  by (auto simp: waitForPageAndInject_def split: prod.splits bool.splits)

lemma injectTwice_page: "snd (injectTwice c doc) = snd (waitForPageAndInject c doc)"
proof (cases "waitForPageAndInject c doc")
  case (Pair c1 doc1)
  have plat: "currentPlatform c1 = currentPlatform c" and mx: "maxRetries c1 = maxRetries c"
    using wait_fields [of c doc] Pair by simp_all
  have d1: "doc1 = (if maxRetries c \<le> retryCount c then doc
                     else snd (tryInjectButton (currentPlatform c) doc))"
    using wait_page [of c doc] Pair by simp
  have "snd (waitForPageAndInject c1 doc1) = doc1"
  proof (cases "maxRetries c1 \<le> retryCount c1")
    case True
    then show ?thesis by (simp add: wait_page)
  next
    case False
    show ?thesis
    proof (cases "maxRetries c \<le> retryCount c")
      case True
      then have "c1 = c" using Pair by (simp add: waitForPageAndInject_def)
      with False True show ?thesis by simp
    next
      case notyet: False
      then have "doc1 = snd (tryInjectButton (currentPlatform c) doc)" using d1 by simp
      then have "snd (tryInjectButton (currentPlatform c1) doc1) = doc1"
        using plat tryInject_twice [of "currentPlatform c" doc] by simp
      with False show ?thesis by (simp add: wait_page)
    qed
  qed
  with Pair show ?thesis by (simp add: injectTwice_def)
qed

lemmas dom_simps = querySelector_def triggerCount_def marker_def targets_def body_def
  getAttribute_def attrContains_def isAsciiSpace_def ascii_def

lemma cartPage_facts:
  "triggerCount cartPage = 0" "hasInjectionPoint cartPage"
  by (simp_all add: cartPage_def hasInjectionPoint_def dom_simps)

lemma amazonContent_facts:
  "currentPlatform amazonContent \<noteq> None" "retryCount amazonContent < maxRetries amazonContent"
  by (simp_all add: amazonContent_def newContent_def)

lemma cartPage_injected:
  "snd (waitForPageAndInject amazonContent cartPage) =
     Some (Element (ascii ''html'') []
       [Element (ascii ''head'') [] [],
        Element (ascii ''body'') []
          [Element (ascii ''div'') [(ascii ''id'', ascii ''sc-active-cart'')]
             [createAnalyzeButton amazonPlatform],
           Element (ascii ''div'') [(ascii ''class'', ascii ''footer'')] []]])"
  by (simp add: wait_page amazonContent_def newContent_def tryInjectButton_def cartPage_def
       dom_simps)

section \<open>Claims about the request orchestrator\<close>

text \<open>
  C1.  An analysis request that arrives for a tab whose loading flag is set is ignored:
  \<open>analyzeCart\<close> returns the state as it is, so no network call is issued, no call is
  suspended, and the stored results, errors and loading flags are unchanged.
\<close>

theorem C1_request_ignored_while_requesting:
  assumes "loadingStates s tabId = Some True"
  shows "analyzeCart cartData tabId s = s
       \<and> fetchCalls (step s (Message (AnalyzeCartMsg cartData) (Some tabId))) = fetchCalls s
       \<and> pending (step s (Message (AnalyzeCartMsg cartData) (Some tabId))) = pending s
       \<and> analysisResults (step s (Message (AnalyzeCartMsg cartData) (Some tabId))) = analysisResults s
       \<and> analysisErrors (step s (Message (AnalyzeCartMsg cartData) (Some tabId))) = analysisErrors s
       \<and> loadingStates (step s (Message (AnalyzeCartMsg cartData) (Some tabId))) = loadingStates s"
  using assms by (simp add: analyzeCart_def step_def onMessage_def Let_def)

theorem C1_request_ignored_witness:
  "loadingStates (run [Message (AnalyzeCartMsg sampleCart) (Some 7)] :: unit bg_state) 7 = Some True
   \<and> length (fetchCalls (run [Message (AnalyzeCartMsg sampleCart) (Some 7)] :: unit bg_state)) = 1
   \<and> fetchCalls (step (run [Message (AnalyzeCartMsg sampleCart) (Some 7)] :: unit bg_state)
         (Message (AnalyzeCartMsg sampleCart) (Some 7)))
     = fetchCalls (run [Message (AnalyzeCartMsg sampleCart) (Some 7)] :: unit bg_state)"
proof -
  have l: "loadingStates (run [Message (AnalyzeCartMsg sampleCart) (Some 7)] :: unit bg_state) 7 = Some True"
    by (simp add: run_simps)
  have n: "length (fetchCalls (run [Message (AnalyzeCartMsg sampleCart) (Some 7)] :: unit bg_state)) = 1"
    by (simp add: run_simps)
  show ?thesis using C1_request_ignored_while_requesting [OF l, of sampleCart] l n by simp
qed



text \<open>
  C5.  The page-navigation-completed event leaves results, errors, loading flags,
  suspended calls and the call log unchanged, so every snapshot query is answered as
  before it; it clears the badge text of its tab.  In particular a completed session
  still reports its result with isLoading false after the event.
\<close>

theorem C5_navigation_keeps_session:
  "analysisResults (step s (TabUpdated t st)) = analysisResults s
 \<and> analysisErrors (step s (TabUpdated t st)) = analysisErrors s
 \<and> loadingStates (step s (TabUpdated t st)) = loadingStates s
 \<and> pending (step s (TabUpdated t st)) = pending s
 \<and> fetchCalls (step s (TabUpdated t st)) = fetchCalls s
 \<and> getAnalysisResult (step s (TabUpdated t st)) active = getAnalysisResult s active
 \<and> badgeText (step s (TabUpdated t (Some (ascii ''complete'')))) t = []
 \<and> (tab \<noteq> 0 \<and> loadingStates (run evs) tab = Some False \<and> analysisResults (run evs) tab = Some r
      \<longrightarrow> getAnalysisResult (step (run evs) (TabUpdated t st)) (Some tab)
          = \<lparr> isLoading = False, result = Some r, error = None \<rparr>)"
proof -
  have "analysisResults (run evs) tab = None \<or> analysisErrors (run evs) tab = None"
    by (rule run_exclusive)
  then show ?thesis
    by (auto simp: step_def tabsOnUpdated_def getAnalysisResult_def split: option.splits)
qed

theorem C5_navigation_witness:
  "loadingStates (run completedRun) 7 = Some False
 \<and> analysisResults (run completedRun) 7 = Some 4000
 \<and> badgeText (run completedRun) 7 = [0x2713]
 \<and> badgeText (step (run completedRun) (TabUpdated 7 (Some (ascii ''complete'')))) 7 = []
 \<and> getAnalysisResult (step (run completedRun) (TabUpdated 7 (Some (ascii ''complete'')))) (Some 7)
     = \<lparr> isLoading = False, result = Some 4000, error = None \<rparr>"
  using C5_navigation_keeps_session [of "run completedRun" 7 "Some (ascii ''complete'')" "Some 7" 7 completedRun 4000]
    completedRun_state by (simp add: getAnalysisResult_def)

text \<open>
  C6 (as amended).  The badge of a tab is set to in-progress by every analysis request
  that carries a tab id, whether the request starts a call or is ignored by the guard;
  to success when the body of the response is parsed; to error when the call fails; it
  is cleared when a page load of the tab completes; no other event changes it.
\<close>

theorem C6_badge_changes:
  "(t \<noteq> 0 \<longrightarrow>
      badgeText (step s (Message (AnalyzeCartMsg c) (Some t))) = (badgeText s)(t := ascii ''...''))
 \<and> badgeText (step s (Message (AnalyzeCartMsg c) None)) = badgeText s
 \<and> badgeText (step s (Message (AnalyzeCartMsg c) (Some 0))) = badgeText s
 \<and> badgeText (step s (Message GetAnalysisResultMsg tab)) = badgeText s
 \<and> badgeText (step s (Message OtherMsg tab)) = badgeText s
 \<and> ((t, AwaitJson) \<in> set (pending s) \<longrightarrow>
      badgeText (step s (JsonSettled t (JsonResolved r))) = (badgeText s)(t := [0x2713]))
 \<and> ((t, stg) \<in> set (pending s) \<and> failure ev = Some (t, stg, msg) \<longrightarrow>
      badgeText (step s ev) = (badgeText s)(t := ascii ''!''))
 \<and> (ok rsp \<longrightarrow> badgeText (step s (FetchSettled t (FetchResolved rsp))) = badgeText s)
 \<and> ((t, AwaitFetch) \<notin> set (pending s) \<longrightarrow> badgeText (step s (FetchSettled t out)) = badgeText s)
 \<and> ((t, AwaitJson) \<notin> set (pending s) \<longrightarrow> badgeText (step s (JsonSettled t jout)) = badgeText s)
 \<and> badgeText (step s (TabUpdated t (Some (ascii ''complete'')))) = (badgeText s)(t := [])
 \<and> (st \<noteq> Some (ascii ''complete'') \<longrightarrow> badgeText (step s (TabUpdated t st)) = badgeText s)"
proof -
  have req: "t \<noteq> 0 \<Longrightarrow>
      badgeText (step s (Message (AnalyzeCartMsg c) (Some t))) = (badgeText s)(t := ascii ''...'')"
    by (simp add: step_def onMessage_def analyzeCart_def Let_def)
  have others: "badgeText (step s (Message (AnalyzeCartMsg c) None)) = badgeText s"
    "badgeText (step s (Message (AnalyzeCartMsg c) (Some 0))) = badgeText s"
    "badgeText (step s (Message GetAnalysisResultMsg tab)) = badgeText s"
    "badgeText (step s (Message OtherMsg tab)) = badgeText s"
    by (simp_all add: step_def onMessage_def)
  have succ: "(t, AwaitJson) \<in> set (pending s) \<Longrightarrow>
      badgeText (step s (JsonSettled t (JsonResolved r))) = (badgeText s)(t := [0x2713])"
    by (simp add: step_def resumeAfterJson_def analyzeCartSuccess_def Let_def)
  have fail: "(t, stg) \<in> set (pending s) \<Longrightarrow> failure ev = Some (t, stg, msg) \<Longrightarrow>
      badgeText (step s ev) = (badgeText s)(t := ascii ''!'')"
    by (simp add: failure_step analyzeCartCatch_def)
  have mid: "ok rsp \<Longrightarrow> badgeText (step s (FetchSettled t (FetchResolved rsp))) = badgeText s"
    by (simp add: step_def resumeAfterFetch_def Let_def)
  have idle: "(t, AwaitFetch) \<notin> set (pending s) \<Longrightarrow> badgeText (step s (FetchSettled t out)) = badgeText s"
    "(t, AwaitJson) \<notin> set (pending s) \<Longrightarrow> badgeText (step s (JsonSettled t jout)) = badgeText s"
    by (simp_all add: step_def)
  have nav: "badgeText (step s (TabUpdated t (Some (ascii ''complete'')))) = (badgeText s)(t := [])"
    "st \<noteq> Some (ascii ''complete'') \<Longrightarrow> badgeText (step s (TabUpdated t st)) = badgeText s"
    by (simp_all add: step_def tabsOnUpdated_def)
  from req others succ fail mid idle nav show ?thesis by blast
qed

theorem C6_badge_witness:
  "(7::int) \<noteq> 0
 \<and> loadingStates (run navigatedRun) 7 = Some True
 \<and> badgeText (step (run navigatedRun) (Message (AnalyzeCartMsg sampleCart) (Some 7)))
     = (badgeText (run navigatedRun))(7 := ascii ''...'')
 \<and> (7, AwaitFetch) \<in> set (pending (run requestedRun))
 \<and> badgeText (step (run requestedRun) http500) = (badgeText (run requestedRun))(7 := ascii ''!'')"
proof -
  have l: "loadingStates (run navigatedRun) 7 = Some True"
    by (simp add: navigatedRun_def run_simps)
  have p: "(7, AwaitFetch) \<in> set (pending (run requestedRun))"
    by (simp add: requestedRun_def run_simps)
  have f: "failure http500
     = Some (7, AwaitFetch, ascii ''API responded with status: 500 - Internal Server Error'')"
    by (simp add: http500_def failure_def ok_def statusMessage_def ascii_def showNat.simps)
  show ?thesis
    using C6_badge_changes [of 7 "run navigatedRun" sampleCart None 0 AwaitFetch http500 "[]"]
      C6_badge_changes [of 7 "run requestedRun" sampleCart None 0 AwaitFetch http500
        "ascii ''API responded with status: 500 - Internal Server Error''"] l p f
    by simp
qed

text \<open>
  The claim as stated fails: after a request and a completed page load the badge of
  tab 7 is empty while the call is still in flight; a second request is ignored by the
  guard (no network call, same loading flags) and yet sets the badge to in-progress.
\<close>

theorem C6_ignored_request_sets_badge:
  "loadingStates (run navigatedRun) 7 = Some True
 \<and> fetchCalls (step (run navigatedRun) (Message (AnalyzeCartMsg sampleCart) (Some 7)))
     = fetchCalls (run navigatedRun)
 \<and> loadingStates (step (run navigatedRun) (Message (AnalyzeCartMsg sampleCart) (Some 7)))
     = loadingStates (run navigatedRun)
 \<and> badgeText (run navigatedRun) 7 = []
 \<and> badgeText (step (run navigatedRun) (Message (AnalyzeCartMsg sampleCart) (Some 7))) 7
     = ascii ''...''
 \<and> badgeText (step (run navigatedRun) (Message (AnalyzeCartMsg sampleCart) (Some 7))) 7
     \<noteq> badgeText (run navigatedRun) 7"
  by (simp add: navigatedRun_def run_simps ascii_def)

text \<open>
  C9.  In every reachable state no tab has both a stored result and a stored error: an
  accepted request clears both before the call is issued, a parsed body stores a result
  and no error, a failed call stores an error and no result.
\<close>

theorem C9_result_error_exclusive:
  "(analysisResults (run evs) t = None \<or> analysisErrors (run evs) t = None)
 \<and> (loadingStates (run evs) t \<noteq> Some True \<longrightarrow>
       analysisResults (analyzeCart c t (run evs)) t = None
     \<and> analysisErrors (analyzeCart c t (run evs)) t = None
     \<and> (t, AwaitFetch) \<in> set (pending (analyzeCart c t (run evs))))
 \<and> ((t, AwaitJson) \<in> set (pending (run evs)) \<longrightarrow>
       analysisResults (step (run evs) (JsonSettled t (JsonResolved r))) t = Some r
     \<and> analysisErrors (step (run evs) (JsonSettled t (JsonResolved r))) t = None)
 \<and> ((t, stg) \<in> set (pending (run evs)) \<and> failure ev = Some (t, stg, msg) \<longrightarrow>
       analysisErrors (step (run evs) ev) t = Some msg
     \<and> analysisResults (step (run evs) ev) t = None)"
proof -
  have a: "analysisResults (run evs) t = None \<or> analysisErrors (run evs) t = None"
    by (rule run_exclusive)
  have b: "loadingStates (run evs) t \<noteq> Some True \<Longrightarrow>
       analysisResults (analyzeCart c t (run evs)) t = None
     \<and> analysisErrors (analyzeCart c t (run evs)) t = None
     \<and> (t, AwaitFetch) \<in> set (pending (analyzeCart c t (run evs)))"
    by (simp add: analyzeCart_def Let_def)
  have c: "(t, AwaitJson) \<in> set (pending (run evs)) \<Longrightarrow>
       analysisResults (step (run evs) (JsonSettled t (JsonResolved r))) t = Some r
     \<and> analysisErrors (step (run evs) (JsonSettled t (JsonResolved r))) t = None"
    using pending_facts(3) [of t AwaitJson evs]
    by (simp add: step_def resumeAfterJson_def analyzeCartSuccess_def Let_def)
  have d: "(t, stg) \<in> set (pending (run evs)) \<Longrightarrow> failure ev = Some (t, stg, msg) \<Longrightarrow>
       analysisErrors (step (run evs) ev) t = Some msg
     \<and> analysisResults (step (run evs) ev) t = None"
    using pending_facts(2) [of t stg evs]
    by (simp add: failure_step analyzeCartCatch_def)
  from a b c d show ?thesis by blast
qed

theorem C9_exclusive_witness:
  "analysisResults (run completedRun) 7 = Some 4000 \<and> analysisErrors (run completedRun) 7 = None
 \<and> analysisErrors (step (run requestedRun) http500) 7
     = Some (ascii ''API responded with status: 500 - Internal Server Error'')
 \<and> analysisResults (step (run requestedRun) http500) 7 = None"
proof -
  have p: "(7, AwaitFetch) \<in> set (pending (run requestedRun))"
    by (simp add: requestedRun_def run_simps)
  have f: "failure http500
     = Some (7, AwaitFetch, ascii ''API responded with status: 500 - Internal Server Error'')"
    by (simp add: http500_def failure_def ok_def statusMessage_def ascii_def showNat.simps)
  have r: "analysisResults (run completedRun) 7 = Some 4000"
    by (simp add: completedRun_def run_simps)
  show ?thesis
    using C9_result_error_exclusive [of completedRun 7 sampleCart 0 AwaitFetch http500 "[]"]
      C9_result_error_exclusive [of requestedRun 7 sampleCart 0 AwaitFetch http500
        "ascii ''API responded with status: 500 - Internal Server Error''"] p f r
    by simp
qed

text \<open>
  C10.  A snapshot query for which no active tab can be determined is answered with
  isLoading false, no result, and the non-empty error text "No active tab", whatever
  the stored state is.
\<close>

theorem C10_no_active_tab_response:
  "getAnalysisResult s None =
     \<lparr> isLoading = False, result = None, error = Some (ascii ''No active tab'') \<rparr>
   \<and> ascii ''No active tab'' \<noteq> []"
  by (simp add: getAnalysisResult_def ascii_def)

section \<open>Claims about the content script\<close>

text \<open>
  C2 (as amended).  For every matched adapter, hostname and list of container rows,
  \<open>scrapeCartItems\<close> returns the items of exactly the well-formed rows, in document
  order, each with quantity 1 and a non-empty title.  A row is well formed when its
  title element and its price element are present, its title is not empty after
  trimming, and its price text, with the rupee sign, the dollar sign, commas and white
  space removed, has a prefix that \<open>parseFloat\<close> reads as a number greater than zero;
  the infinite value counts as such.  The price text of a rupee sign and "1,299.00"
  yields 1299 and is kept; "Free" is excluded, and so are a row without title element
  and a price led by a currency sign other than those two.
\<close>

theorem C2_extract_wellformed_rows:
  "scrapeCartItems (Some p) hostname containers
     = map (keptItem hostname) (filter wellFormed containers)
 \<and> (wellFormed r \<longleftrightarrow>
       (\<exists>t q. titleElement r = Some t \<and> priceElement r = Some q \<and> trim t \<noteq> []
            \<and> parseFloat (trim (stripPriceText q)) \<noteq> NaN
            \<and> greaterThanZero (parseFloat (trim (stripPriceText q)))))
 \<and> (\<forall>item \<in> set (scrapeCartItems (Some p) hostname containers).
       quantity item = 1 \<and> productTitle item \<noteq> [] \<and> greaterThanZero (price item))
 \<and> wellFormed rupeeRow \<and> priceOf rupeeRow = Num 1299
 \<and> \<not> wellFormed freeRow \<and> \<not> wellFormed untitledRow \<and> \<not> wellFormed euroRow"
proof -
  have a: "scrapeCartItems (Some p) hostname containers
     = map (keptItem hostname) (filter wellFormed containers)"
    by (rule scrapeCartItems_eq)
  have b: "wellFormed r \<longleftrightarrow>
       (\<exists>t q. titleElement r = Some t \<and> priceElement r = Some q \<and> trim t \<noteq> []
            \<and> parseFloat (trim (stripPriceText q)) \<noteq> NaN
            \<and> greaterThanZero (parseFloat (trim (stripPriceText q))))"
    by (auto simp: wellFormed_def titleOf_def priceOf_def isNaN_def)
  have c: "\<forall>item \<in> set (scrapeCartItems (Some p) hostname containers).
       quantity item = 1 \<and> productTitle item \<noteq> [] \<and> greaterThanZero (price item)"
    by (auto simp: a keptItem_def wellFormed_def)
  have d: "\<not> wellFormed euroRow"
    by (simp add: wellFormed_def euroRow_price isNaN_def)
  from a b c d rupeeRow_wf rupeeRow_price freeRow_wf untitledRow_wf show ?thesis by blast
qed

theorem C2_extract_witness:
  "scrapeCartItems (Some amazonPlatform) (ascii ''www.amazon.in'')
     [rupeeRow, freeRow, untitledRow, rupeeRow]
   = [\<lparr> productTitle = ascii ''Sony WH-1000XM5'', price = Num 1299, quantity = 1,
         currency = ascii ''INR'' \<rparr>,
      \<lparr> productTitle = ascii ''Sony WH-1000XM5'', price = Num 1299, quantity = 1,
         currency = ascii ''INR'' \<rparr>]"
proof -
  note inst = C2_extract_wellformed_rows [of amazonPlatform "ascii ''www.amazon.in''"
        "[rupeeRow, freeRow, untitledRow, rupeeRow]" rupeeRow]
  have c: "detectCurrency (ascii ''www.amazon.in'') = ascii ''INR''"
    by (simp add: detectCurrency_def ascii_def)
  have eq: "scrapeCartItems (Some amazonPlatform) (ascii ''www.amazon.in'')
       [rupeeRow, freeRow, untitledRow, rupeeRow]
     = map (keptItem (ascii ''www.amazon.in''))
         (filter wellFormed [rupeeRow, freeRow, untitledRow, rupeeRow])"
    using inst by (rule conjunct1)
  have wf: "wellFormed rupeeRow" "\<not> wellFormed freeRow" "\<not> wellFormed untitledRow"
    and pr: "priceOf rupeeRow = Num 1299"
    using inst by blast+
  show ?thesis
    by (simp add: eq wf pr keptItem_def rupeeRow_title c)
qed

text \<open>
  The claim as stated fails on finiteness: the price text "Infinity" parses to the
  infinite value, which is not NaN and is greater than zero, so the row is kept.
\<close>

theorem C2_infinite_price_kept:
  "scrapeCartItems (Some amazonPlatform) (ascii ''www.amazon.in'') [infinityRow]
     = [\<lparr> productTitle = ascii ''Gift card'', price = PosInfinity, quantity = 1,
           currency = ascii ''INR'' \<rparr>]
 \<and> \<not> isFinite PosInfinity
 \<and> \<not> wellFormedFinite infinityRow
 \<and> scrapeCartItems (Some amazonPlatform) (ascii ''www.amazon.in'') [infinityRow]
     \<noteq> map (keptItem (ascii ''www.amazon.in'')) (filter wellFormedFinite [infinityRow])"
proof -
  have c: "detectCurrency (ascii ''www.amazon.in'') = ascii ''INR''"
    by (simp add: detectCurrency_def ascii_def)
  have t: "titleOf infinityRow = ascii ''Gift card''"
    by (simp add: infinityRow_def titleOf_def parse_simps)
  have f: "\<not> wellFormedFinite infinityRow"
    by (simp add: wellFormedFinite_def infinityRow_price isFinite_def)
  show ?thesis
    by (simp add: scrapeCartItems_eq infinityRow_wf f keptItem_def infinityRow_price t c isFinite_def)
qed

text \<open>
  C3 (as amended).  \<open>detectPlatform\<close> takes the first adapter, in registration order,
  whose retailer token occurs in the hostname, and returns it when the url passes that
  adapter's cart-page test, none otherwise; later adapters are not consulted.  Whenever
  it returns an adapter, that adapter is the first whose whole rule matches; when no
  rule matches it returns none; for a hostname that contains at most one retailer token
  it agrees with \<open>identify\<close> everywhere.  Each catalogued retailer cart page returns
  its own adapter.
\<close>

theorem C3_first_host_token_decides:
  "detectPlatform url hostname = firstHostMatch adapterCatalog url hostname
 \<and> (hostTokenHits hostname \<le> 1 \<longrightarrow> detectPlatform url hostname = identify url hostname)
 \<and> (detectPlatform url hostname = Some p \<longrightarrow> identify url hostname = Some p)
 \<and> (identify url hostname = None \<longrightarrow> detectPlatform url hostname = None)
 \<and> detectPlatform (ascii ''https://www.amazon.in/gp/cart/view.html'') (ascii ''www.amazon.in'')
     = Some amazonPlatform
 \<and> detectPlatform (ascii ''https://www.flipkart.com/viewcart'') (ascii ''www.flipkart.com'')
     = Some flipkartPlatform
 \<and> detectPlatform (ascii ''https://www.bigbasket.com/basket/'') (ascii ''www.bigbasket.com'')
     = Some bigbasketPlatform
 \<and> detectPlatform (ascii ''https://www.swiggy.com/instamart/cart'') (ascii ''www.swiggy.com'')
     = Some swiggyPlatform
 \<and> detectPlatform (ascii ''https://www.walmart.com/cart'') (ascii ''www.walmart.com'')
     = Some walmartPlatform
 \<and> detectPlatform (ascii ''https://www.target.com/cart'') (ascii ''www.target.com'')
     = Some targetPlatform"
  using detectPlatform_firstHostMatch [of url hostname]
    identify_firstHostMatch [of hostname url]
    detectPlatform_Some_identify [of url hostname p]
    identify_None_detectPlatform [of url hostname]
  by (simp add: catalog_pages)

theorem C3_detect_witness:
  "hostTokenHits (ascii ''www.amazon.in'') \<le> 1
 \<and> identify (ascii ''https://www.amazon.in/gp/cart/view.html'') (ascii ''www.amazon.in'')
     = Some amazonPlatform
 \<and> identify (ascii ''https://www.amazon.in/dp/B09XS7JWHH'') (ascii ''www.amazon.in'') = None"
  using C3_first_host_token_decides [of "ascii ''https://www.amazon.in/gp/cart/view.html''"
      "ascii ''www.amazon.in''" amazonPlatform]
    C3_first_host_token_decides [of "ascii ''https://www.amazon.in/dp/B09XS7JWHH''"
      "ascii ''www.amazon.in''" amazonPlatform]
    amazon_in_hits catalog_pages(7)
  by simp

text \<open>
  The claim as stated fails for a hostname with two retailer tokens: the Amazon branch
  is entered and its url test fails, so nothing is returned, although the Flipkart rule
  matches.
\<close>

theorem C3_two_tokens_no_match:
  "detectPlatform (ascii ''https://amazon.flipkart.com/viewcart'') (ascii ''amazon.flipkart.com'')
     = None
 \<and> identify (ascii ''https://amazon.flipkart.com/viewcart'') (ascii ''amazon.flipkart.com'')
     = Some flipkartPlatform
 \<and> matchRule (adapterCatalog ! 1) (ascii ''https://amazon.flipkart.com/viewcart'')
       (ascii ''amazon.flipkart.com'')"
  by (simp add: detect_simps identify_def matchRule_def adapterCatalog_def)

text \<open>
  C7 (as amended).  The currency of every extracted item is \<open>detectCurrency\<close> of the
  hostname and of nothing else: INR exactly when the hostname contains ".in" anywhere,
  USD otherwise.  So every hostname that ends in ".in" maps to INR.
\<close>

theorem C7_currency_from_hostname:
  "(\<forall>item \<in> set (scrapeCartItems plat hostname containers).
      currency item = detectCurrency hostname)
 \<and> (detectCurrency hostname = ascii ''INR'' \<longleftrightarrow> str_includes hostname (ascii ''.in''))
 \<and> (detectCurrency hostname = ascii ''USD'' \<longleftrightarrow> \<not> str_includes hostname (ascii ''.in''))
 \<and> (str_includes hostname (ascii ''.in'')
      \<longleftrightarrow> (\<exists>before after. hostname = before @ ascii ''.in'' @ after))
 \<and> (endsWith hostname (ascii ''.in'') \<longrightarrow> detectCurrency hostname = ascii ''INR'')"
proof -
  have ne: "ascii ''INR'' \<noteq> ascii ''USD''" by (simp add: ascii_def)
  have a: "\<forall>item \<in> set (scrapeCartItems plat hostname containers).
      currency item = detectCurrency hostname"
    by (simp add: scrapeCartItems_currency)
  have b: "detectCurrency hostname = ascii ''INR'' \<longleftrightarrow> str_includes hostname (ascii ''.in'')"
    using ne by (simp add: detectCurrency_def)
  have c: "detectCurrency hostname = ascii ''USD'' \<longleftrightarrow> \<not> str_includes hostname (ascii ''.in'')"
    using ne by (auto simp: detectCurrency_def)
  have d: "str_includes hostname (ascii ''.in'')
      \<longleftrightarrow> (\<exists>before after. hostname = before @ ascii ''.in'' @ after)"
    by (rule str_includes_iff)
  have e: "endsWith hostname (ascii ''.in'') \<Longrightarrow> detectCurrency hostname = ascii ''INR''"
    using b endsWith_includes by blast
  from a b c d e show ?thesis by blast
qed

theorem C7_currency_witness:
  "endsWith (ascii ''www.amazon.in'') (ascii ''.in'')
 \<and> detectCurrency (ascii ''www.amazon.in'') = ascii ''INR''
 \<and> map currency (scrapeCartItems (Some amazonPlatform) (ascii ''www.amazon.in'') [rupeeRow])
     = [ascii ''INR'']"
proof -
  have e: "endsWith (ascii ''www.amazon.in'') (ascii ''.in'')"
    by (simp add: endsWith_def ascii_def)
  have s: "scrapeCartItems (Some amazonPlatform) (ascii ''www.amazon.in'') [rupeeRow]
     = [keptItem (ascii ''www.amazon.in'') rupeeRow]"
    by (simp add: scrapeCartItems_eq rupeeRow_wf)
  show ?thesis
    using C7_currency_from_hostname [of "Some amazonPlatform" "ascii ''www.amazon.in''" "[rupeeRow]"] e s
    by simp
qed

text \<open>
  The claim as stated fails in both directions: a hostname outside the .in domain with
  a label that starts with "in" maps to INR, and a hostname in another country-code
  domain maps to USD.
\<close>

theorem C7_substring_not_domain:
  "\<not> endsWith (ascii ''www.instore.walmart.com'') (ascii ''.in'')
 \<and> detectCurrency (ascii ''www.instore.walmart.com'') = ascii ''INR''
 \<and> endsWith (ascii ''www.amazon.co.uk'') (ascii ''.uk'')
 \<and> detectCurrency (ascii ''www.amazon.co.uk'') = ascii ''USD''"
  by (simp add: endsWith_def detectCurrency_def ascii_def)

text \<open>
  C8 (as amended).  Two runs of the injection in immediate succession leave the page
  as the first run left it, and a second attempt returns what the first returned.  A
  page that already holds a trigger control is left unchanged.  When the page holds no
  trigger control and offers an injection point (an anchor candidate or a body), a
  platform is set and the retry budget is not used up, the page holds exactly one
  trigger control afterwards.
\<close>

theorem C8_injection_idempotent:
  "snd (injectTwice c doc) = snd (waitForPageAndInject c doc)
 \<and> tryInjectButton plat (snd (tryInjectButton plat doc)) = tryInjectButton plat doc
 \<and> (0 < triggerCount doc \<longrightarrow>
       tryInjectButton plat doc = (True, doc) \<and> snd (injectTwice c doc) = doc)
 \<and> (triggerCount doc = 0 \<and> hasInjectionPoint doc \<and> currentPlatform c \<noteq> None
       \<and> retryCount c < maxRetries c \<longrightarrow>
       triggerCount (snd (injectTwice c doc)) = 1)"
proof -
  have a: "snd (injectTwice c doc) = snd (waitForPageAndInject c doc)"
    by (rule injectTwice_page)
  have b: "tryInjectButton plat (snd (tryInjectButton plat doc)) = tryInjectButton plat doc"
    by (rule tryInject_twice)
  have c: "0 < triggerCount doc \<Longrightarrow>
       tryInjectButton plat doc = (True, doc) \<and> snd (injectTwice c doc) = doc"
    by (simp add: a wait_page tryInject_existing)
  have d: "triggerCount doc = 0 \<Longrightarrow> hasInjectionPoint doc \<Longrightarrow> currentPlatform c \<noteq> None
       \<Longrightarrow> retryCount c < maxRetries c \<Longrightarrow> triggerCount (snd (injectTwice c doc)) = 1"
  proof -
    assume h: "triggerCount doc = 0" "hasInjectionPoint doc" "currentPlatform c \<noteq> None"
      "retryCount c < maxRetries c"
    then obtain p where p: "currentPlatform c = Some p" by auto
    from h(4) have "snd (waitForPageAndInject c doc) = snd (tryInjectButton (Some p) doc)"
      by (simp add: wait_page p)
    with tryInject_fresh [OF h(1) h(2), of p] show ?thesis by (simp add: a)
  qed
  from a b c d show ?thesis by blast
qed

theorem C8_injection_witness:
  "triggerCount cartPage = 0 \<and> hasInjectionPoint cartPage
 \<and> currentPlatform amazonContent \<noteq> None \<and> retryCount amazonContent < maxRetries amazonContent
 \<and> triggerCount (snd (injectTwice amazonContent cartPage)) = 1
 \<and> snd (injectTwice amazonContent cartPage) =
     Some (Element (ascii ''html'') []
       [Element (ascii ''head'') [] [],
        Element (ascii ''body'') []
          [Element (ascii ''div'') [(ascii ''id'', ascii ''sc-active-cart'')]
             [createAnalyzeButton amazonPlatform],
           Element (ascii ''div'') [(ascii ''class'', ascii ''footer'')] []]])"
proof -
  note inst = C8_injection_idempotent [of amazonContent cartPage "Some amazonPlatform"]
  have one: "triggerCount (snd (injectTwice amazonContent cartPage)) = 1"
    using inst cartPage_facts amazonContent_facts by blast
  have same: "snd (injectTwice amazonContent cartPage)
      = snd (waitForPageAndInject amazonContent cartPage)"
    using inst by (rule conjunct1)
  show ?thesis
    using one cartPage_facts amazonContent_facts
    by (simp only: same cartPage_injected simp_thms)
qed

text \<open>
  The claim as stated fails for a page without anchor candidate and without body: both
  attempts fail in \<open>appendChild\<close> and the page holds no trigger control.
\<close>

theorem C8_no_body_no_trigger:
  "tryInjectButton (Some amazonPlatform) headOnlyPage = (False, headOnlyPage)
 \<and> snd (injectTwice amazonContent headOnlyPage) = headOnlyPage
 \<and> triggerCount (snd (injectTwice amazonContent headOnlyPage)) = 0
 \<and> retryCount (fst (injectTwice amazonContent headOnlyPage)) = 2"
proof -
  have t: "tryInjectButton (Some amazonPlatform) headOnlyPage = (False, headOnlyPage)"
    by (simp add: tryInjectButton_def headOnlyPage_def dom_simps)
  have n: "triggerCount headOnlyPage = 0"
    by (simp add: headOnlyPage_def dom_simps)
  have w: "injectTwice amazonContent headOnlyPage
      = (amazonContent\<lparr> retryCount := 2, timers := 2 \<rparr>, headOnlyPage)"
    by (simp add: injectTwice_def waitForPageAndInject_def amazonContent_def newContent_def t)
  show ?thesis by (simp add: t n w)
qed

end
